theory Spec2Isabelle
  imports Complex_Main "HOL-Library.AList" "HOL-Library.Log_Nat" "HOL-Library.Monad_Syntax"
begin

section \<open>JavaScript strings\<close>

text \<open>
  A JavaScript string is a sequence of UTF-16 code units. The model keeps the code units as
  natural numbers, so that the emoji of the badge labels and the typographic characters of
  the prompts are the units the source file holds. \<open>js\<close> turns an ASCII literal into its
  code units.
\<close>

type_synonym jsstring = "nat list"

definition js :: "string \<Rightarrow> jsstring" where
  "js s = map of_char s"

text \<open>
  \<open>String.prototype.trim\<close> removes the WhiteSpace and LineTerminator code points of
  ECMAScript from both ends: TAB, LF, VT, FF, CR, SP, NBSP, U+1680, U+2000 to U+200A,
  U+2028, U+2029, U+202F, U+205F, U+3000 and U+FEFF.
\<close>

definition isWhiteSpace :: "nat \<Rightarrow> bool" where
  "isWhiteSpace c =
     (c \<in> {9, 10, 11, 12, 13, 32, 160, 5760, 8232, 8233, 8239, 8287, 12288, 65279}
      \<or> (8192 \<le> c \<and> c \<le> 8202))"

definition trimStart :: "jsstring \<Rightarrow> jsstring" where
  "trimStart s = dropWhile isWhiteSpace s"

definition trimEnd :: "jsstring \<Rightarrow> jsstring" where
  "trimEnd s = rev (dropWhile isWhiteSpace (rev s))"

definition trim :: "jsstring \<Rightarrow> jsstring" where
  "trim s = trimEnd (trimStart s)"

text \<open>
  \<open>toLowerCase\<close> is modelled on the Basic Latin and Latin-1 letters; every other code
  unit is left as it is. The source uses the lowered string only to test the two ASCII
  prefixes \<open>draft:\<close> and \<open>score:\<close>, and no character outside \<open>A\<close> to \<open>Z\<close> lowers to a
  letter of these prefixes.
\<close>

definition lowerUnit :: "nat \<Rightarrow> nat" where
  "lowerUnit c =
     (if 65 \<le> c \<and> c \<le> 90 then c + 32
      else if 192 \<le> c \<and> c \<le> 222 \<and> c \<noteq> 215 then c + 32
      else c)"

definition toLowerCase :: "jsstring \<Rightarrow> jsstring" where
  "toLowerCase s = map lowerUnit s"

definition startsWith :: "jsstring \<Rightarrow> jsstring \<Rightarrow> bool" where
  "startsWith s p = (take (length p) s = p)"

text \<open>\<open>s.slice(n)\<close> for a non-negative \<open>n\<close>: the units from index \<open>n\<close> on, empty past the end.\<close>

definition slice :: "jsstring \<Rightarrow> nat \<Rightarrow> jsstring" where
  "slice s n = drop n s"

text \<open>\<open>s.includes(sub)\<close>: \<open>sub\<close> occurs in \<open>s\<close> at some position.\<close>

fun str_includes :: "jsstring \<Rightarrow> jsstring \<Rightarrow> bool" where
  "str_includes [] sub = (sub = [])"
| "str_includes (c # s) sub = (startsWith (c # s) sub \<or> str_includes s sub)"

section \<open>Numbers\<close>

text \<open>
  A JavaScript number is an IEEE 754 double. The finite doubles are kept as the rational
  numbers they denote; the two zeros are one value, since the code neither divides by a
  score nor prints one except through \<open>JSON.stringify\<close>, which prints \<open>0\<close> for both.
\<close>

datatype number = Finite rat | NaN | PosInfinity | NegInfinity

text \<open>
  \<open>fl x\<close> is the double nearest to the exact result \<open>x\<close>, ties to the even significand:
  53 significant bits, least exponent \<open>-1022\<close> (below it the spacing stays
  \<open>2 powi (-1074)\<close>), and infinity from \<open>2 powi 1024\<close> on. \<open>ilog2 a\<close> is the exponent of
  a positive \<open>a\<close>, the integer \<open>e\<close> with \<open>2 powi e \<le> a < 2 powi (e + 1)\<close>.
\<close>

definition roundHalfEven :: "rat \<Rightarrow> int" where
  "roundHalfEven t =
     (let f = \<lfloor>t\<rfloor>; d = t - of_int f
      in if d < 1 / 2 then f else if 1 / 2 < d then f + 1 else if even f then f else f + 1)"

definition ilog2 :: "rat \<Rightarrow> int" where
  "ilog2 a =
     (let k = bitlen (fst (quotient_of a)) - bitlen (snd (quotient_of a))
      in if 2 powi k \<le> a then k else k - 1)"

definition fl :: "rat \<Rightarrow> number" where
  "fl x =
     (if x = 0 then Finite 0
      else
        let a = \<bar>x\<bar>;
            e = max (ilog2 a) (- 1022);
            q = 2 powi (e - 52);
            r = of_int (roundHalfEven (a / q)) * q
        in if 2 powi 1024 \<le> r then (if 0 < x then PosInfinity else NegInfinity)
           else Finite (if 0 < x then r else - r))"

text \<open>\<open>x + y\<close> on numbers.\<close>

fun numAdd :: "number \<Rightarrow> number \<Rightarrow> number" where
  "numAdd (Finite x) (Finite y) = fl (x + y)"
| "numAdd NaN y = NaN"
| "numAdd x NaN = NaN"
| "numAdd PosInfinity NegInfinity = NaN"
| "numAdd NegInfinity PosInfinity = NaN"
| "numAdd PosInfinity y = PosInfinity"
| "numAdd NegInfinity y = NegInfinity"
| "numAdd x PosInfinity = PosInfinity"
| "numAdd x NegInfinity = NegInfinity"

text \<open>
  \<open>x / c\<close> and \<open>x * c\<close> for a finite constant \<open>c > 0\<close>; the code divides by
  \<open>totalPoints\<close> and multiplies by \<open>100\<close>.
\<close>

fun numDiv :: "number \<Rightarrow> rat \<Rightarrow> number" where
  "numDiv (Finite x) c = fl (x / c)"
| "numDiv x c = x"

fun numMul :: "number \<Rightarrow> rat \<Rightarrow> number" where
  "numMul (Finite x) c = fl (x * c)"
| "numMul x c = x"

text \<open>\<open>Math.round\<close>: the nearest integer, a half rounded up.\<close>

fun mathRound :: "number \<Rightarrow> number" where
  "mathRound (Finite x) = Finite (of_int \<lfloor>x + 1 / 2\<rfloor>)"
| "mathRound x = x"

text \<open>\<open>x >= y\<close> on numbers; false when either side is \<open>NaN\<close>.\<close>

fun numGe :: "number \<Rightarrow> number \<Rightarrow> bool" where
  "numGe (Finite x) (Finite y) = (y \<le> x)"
| "numGe NaN y = False"
| "numGe x NaN = False"
| "numGe PosInfinity y = True"
| "numGe x NegInfinity = True"
| "numGe NegInfinity y = False"
| "numGe x PosInfinity = False"

section \<open>JSON values and objects\<close>

text \<open>
  The values \<open>JSON.parse\<close> returns. An object is the list of its own properties, with
  distinct keys, in the order in which \<open>for ... in\<close> and \<open>JSON.stringify\<close> visit them
  (integer-like keys first, the others as created). \<open>o[k]\<close> on own properties is
  \<open>getProp obj k\<close>, \<open>None\<close> standing for \<open>undefined\<close>; the assignment \<open>o[k] = v\<close> is
  \<open>AList.update k v obj\<close>, which replaces the value of an existing key in place and
  appends a new key at the end.
\<close>

datatype json =
  JNull | JBool bool | JNum number | JStr jsstring | JArr "json list" | JObj "(jsstring \<times> json) list"

type_synonym 'v obj = "(jsstring \<times> 'v) list"

definition getProp :: "'v obj \<Rightarrow> jsstring \<Rightarrow> 'v option" where
  "getProp obj k = map_of obj k"

text \<open>
  The names of the properties every object inherits from \<open>Object.prototype\<close>; all of them
  have truthy values (eleven functions and, under \<open>__proto__\<close>, the prototype itself).
\<close>

definition objectPrototype :: "jsstring list" where
  "objectPrototype =
     [js ''constructor'', js ''__defineGetter__'', js ''__defineSetter__'',
      js ''hasOwnProperty'', js ''__lookupGetter__'', js ''__lookupSetter__'',
      js ''isPrototypeOf'', js ''propertyIsEnumerable'', js ''toString'', js ''valueOf'',
      js ''__proto__'', js ''toLocaleString'']"

section \<open>Messages, the upstream service and the platform\<close>

datatype role = System | User | Assistant

text \<open>
  The content of a message is a text, except where the code puts in what it has read from
  the cache object under an inherited name: a member of \<open>Object.prototype\<close>.
\<close>

datatype content = Text jsstring | Member jsstring

record chat_message =
  role :: role
  content :: content

record payload =
  model :: jsstring
  payload_messages :: "chat_message list"
  response_format :: jsstring
  temperature :: int

text \<open>
  A rejected upstream call throws an error object, of which the code reads \<open>message\<close> and
  \<open>status\<close>; either may be absent.
\<close>

record js_error =
  message :: "jsstring option"
  status :: "int option"

text \<open>
  One call of \<open>client.chat.completions.create\<close> either resolves to a response, of which
  the code reads \<open>choices[0].message.content\<close>, or rejects with an error. The upstream
  service is a function of the payload and of the number of calls made before.
\<close>

datatype outcome = Resolved jsstring | Rejected js_error

text \<open>
  What the code takes from its platform: the upstream service, \<open>JSON.parse\<close> (\<open>None\<close> for
  a \<open>SyntaxError\<close>), \<open>JSON.stringify\<close>, and the two conversions between numbers and
  strings, \<open>Number::toString\<close> and \<open>StringToNumber\<close> of ECMAScript.
\<close>

record platform =
  create :: "payload \<Rightarrow> nat \<Rightarrow> outcome"
  json_parse :: "jsstring \<Rightarrow> json option"
  json_stringify :: "json \<Rightarrow> jsstring"
  number_to_string :: "number \<Rightarrow> jsstring"
  string_to_number :: "jsstring \<Rightarrow> number"

section \<open>Operators of the language\<close>

text \<open>What \<open>if (v)\<close> and \<open>v || w\<close> take for true.\<close>

fun truthy :: "json \<Rightarrow> bool" where
  "truthy JNull = False"
| "truthy (JBool b) = b"
| "truthy (JNum n) = (n \<noteq> Finite 0 \<and> n \<noteq> NaN)"
| "truthy (JStr s) = (s \<noteq> [])"
| "truthy (JArr xs) = True"
| "truthy (JObj ps) = True"

text \<open>
  \<open>v[k]\<close> for a value other than \<open>null\<close> and a name \<open>k\<close> that is neither inherited nor an
  index nor \<open>length\<close>, as \<open>scores\<close>, \<open>total\<close>, \<open>badge\<close> and the criterion names are: only
  an object can have it.
\<close>

definition field :: "json \<Rightarrow> jsstring \<Rightarrow> json option" where
  "field j k = (case j of JObj ps \<Rightarrow> getProp ps k | _ \<Rightarrow> None)"

text \<open>
  \<open>ToString\<close>. An array is the texts of its elements joined by commas, \<open>null\<close> elements
  giving the empty text. An object is \<open>[object Object]\<close>, unless it has a property
  \<open>toString\<close> of its own: that is not a function, no other conversion is left, and a
  \<open>TypeError\<close> is thrown (\<open>None\<close>).
\<close>

fun joinTexts :: "jsstring list \<Rightarrow> jsstring" where
  "joinTexts [] = []"
| "joinTexts [t] = t"
| "joinTexts (t # ts) = t @ js '','' @ joinTexts ts"

fun toText :: "platform \<Rightarrow> json \<Rightarrow> jsstring option"
  and elementTexts :: "platform \<Rightarrow> json list \<Rightarrow> jsstring list option"
where
  "toText pf JNull = Some (js ''null'')"
| "toText pf (JBool b) = Some (if b then js ''true'' else js ''false'')"
| "toText pf (JNum n) = Some (number_to_string pf n)"
| "toText pf (JStr s) = Some s"
| "toText pf (JArr xs) = map_option joinTexts (elementTexts pf xs)"
| "toText pf (JObj ps) =
     (if getProp ps (js ''toString'') = None then Some (js ''[object Object]'') else None)"
| "elementTexts pf [] = Some []"
| "elementTexts pf (x # xs) =
     (case (if x = JNull then Some [] else toText pf x) of
        None \<Rightarrow> None
      | Some t \<Rightarrow> map_option (\<lambda>ts. t # ts) (elementTexts pf xs))"


text \<open>\<open>ToPrimitive\<close>: arrays and objects become their text.\<close>

fun toPrimitive :: "platform \<Rightarrow> json \<Rightarrow> json option" where
  "toPrimitive pf (JArr xs) = map_option JStr (toText pf (JArr xs))"
| "toPrimitive pf (JObj ps) = map_option JStr (toText pf (JObj ps))"
| "toPrimitive pf v = Some v"

text \<open>\<open>ToNumber\<close>.\<close>

fun toNumber :: "platform \<Rightarrow> json \<Rightarrow> number option" where
  "toNumber pf JNull = Some (Finite 0)"
| "toNumber pf (JBool b) = Some (Finite (if b then 1 else 0))"
| "toNumber pf (JNum n) = Some n"
| "toNumber pf (JStr s) = Some (string_to_number pf s)"
| "toNumber pf v = map_option (string_to_number pf) (toText pf v)"

fun isString :: "json \<Rightarrow> bool" where
  "isString (JStr s) = True"
| "isString v = False"

text \<open>
  \<open>a + b\<close>: both sides are made primitive; if either is then a string the texts are
  concatenated, otherwise the numbers are added.
\<close>

definition jsAdd :: "platform \<Rightarrow> json \<Rightarrow> json \<Rightarrow> json option" where
  "jsAdd pf a b =
     do {
       pa \<leftarrow> toPrimitive pf a;
       pb \<leftarrow> toPrimitive pf b;
       if isString pa \<or> isString pb then
         do { ta \<leftarrow> toText pf pa; tb \<leftarrow> toText pf pb; Some (JStr (ta @ tb)) }
       else
         do { x \<leftarrow> toNumber pf pa; y \<leftarrow> toNumber pf pb; Some (JNum (numAdd x y)) }
     }"

text \<open>\<open>a >= c\<close> for a number \<open>c\<close>.\<close>

definition jsGe :: "platform \<Rightarrow> json \<Rightarrow> number \<Rightarrow> bool option" where
  "jsGe pf a c = map_option (\<lambda>x. numGe x c) (toNumber pf a)"

text \<open>
  The values \<open>v[k]\<close> for the keys \<open>k\<close> that \<open>for (k in v)\<close> visits, in order: the
  properties of an object, the elements of an array, the units of a string, and nothing
  for any other value.
\<close>

fun forInValues :: "json \<Rightarrow> json list" where
  "forInValues (JObj ps) = map snd ps"
| "forInValues (JArr xs) = xs"
| "forInValues (JStr s) = map (\<lambda>c. JStr [c]) s"
| "forInValues v = []"

section \<open>Rubric scorer: \<open>calculateBadgeAndTotal\<close>\<close>

text \<open>The four badge labels, each an ASCII name, a space and an emoji.\<close>

definition visionary_thinker :: jsstring where
  "visionary_thinker = js ''Visionary Thinker '' @ [55356, 57119]"

definition feature_architect :: jsstring where
  "feature_architect = js ''Feature Architect '' @ [55358, 56800]"

definition clarity_champion :: jsstring where
  "clarity_champion = js ''Clarity Champion '' @ [55358, 56647]"

definition risk_wrangler :: jsstring where
  "risk_wrangler = js ''Risk Wrangler '' @ [9878, 65039]"

record score_result =
  total :: number
  badge :: "jsstring option"

text \<open>
  The loop \<open>for (let k in scores) obtained += scores[k]\<close>, on the values it visits. An
  addition that throws ends the call (\<open>None\<close>).
\<close>

fun sum_values :: "platform \<Rightarrow> json \<Rightarrow> json list \<Rightarrow> json option" where
  "sum_values pf obtained [] = Some obtained"
| "sum_values pf obtained (v # rest) =
     (case jsAdd pf obtained v of None \<Rightarrow> None | Some s \<Rightarrow> sum_values pf s rest)"

text \<open>\<open>scores[k] || 0\<close>: a missing key and a falsy value both give 0.\<close>

definition orZero :: "json option \<Rightarrow> json" where
  "orZero x = (case x of None \<Rightarrow> JNum (Finite 0) | Some v \<Rightarrow> if truthy v then v else JNum (Finite 0))"

definition benefit :: "platform \<Rightarrow> json \<Rightarrow> json option" where
  "benefit pf scores =
     do {
       s \<leftarrow> jsAdd pf (orZero (field scores (js ''Benefit Hypothesis'')))
                      (orZero (field scores (js ''Strategic alignment'')));
       jsAdd pf s (orZero (field scores (js ''Leading Indicators'')))
     }"

definition clarity :: "platform \<Rightarrow> json \<Rightarrow> json option" where
  "clarity pf scores =
     do {
       s \<leftarrow> jsAdd pf (orZero (field scores (js ''Title clarity'')))
                      (orZero (field scores (js ''Description completeness'')));
       jsAdd pf s (orZero (field scores (js ''Scope clarity'')))
     }"

definition riskDeps :: "platform \<Rightarrow> json \<Rightarrow> json option" where
  "riskDeps pf scores =
     jsAdd pf (orZero (field scores (js ''Risk/Impact'')))
              (orZero (field scores (js ''Dependencies'')))"

text \<open>
  \<open>calculateBadgeAndTotal\<close>. The result is \<open>None\<close> when the call throws a \<open>TypeError\<close>: in
  an addition, or at the first \<open>scores[...]\<close> when \<open>scores\<close> is \<open>null\<close>.
\<close>

definition calculateBadgeAndTotal :: "platform \<Rightarrow> json \<Rightarrow> score_result option" where
  "calculateBadgeAndTotal pf scores =
     do {
       let totalPoints = 100;
       obtained \<leftarrow> sum_values pf (JNum (Finite 0)) (forInValues scores);
       quotient \<leftarrow> map_option (\<lambda>x. numDiv x totalPoints) (toNumber pf obtained);
       let total = mathRound (numMul quotient 100);
       let badge0 = None;
       (if scores = JNull then None else Some ());
       b \<leftarrow> benefit pf scores;
       c \<leftarrow> clarity pf scores;
       r \<leftarrow> riskDeps pf scores;
       b1 \<leftarrow> jsGe pf b (Finite 40);
       let badge1 = (if b1 then Some visionary_thinker else badge0);
       let badge2 = (if numGe total (Finite 85) then Some feature_architect else badge1);
       b3 \<leftarrow> jsGe pf c (Finite 30);
       let badge3 = (if b3 then Some clarity_champion else badge2);
       b4 \<leftarrow> jsGe pf r (Finite 15);
       let badge4 = (if b4 then Some risk_wrangler else badge3);
       Some \<lparr>total = total, badge = badge4\<rparr>
     }"

text \<open>The eight criterion names of the rubric.\<close>

definition criteria :: "jsstring list" where
  "criteria =
     [js ''Title clarity'', js ''Description completeness'', js ''Benefit Hypothesis'',
      js ''Leading Indicators'', js ''Strategic alignment'', js ''Risk/Impact'',
      js ''Dependencies'', js ''Scope clarity'']"

text \<open>
  A mapping from criterion names to integer points, the scores the rubric is made for:
  the points it gives to a name, 0 when the name is absent, and the mapping as a JSON
  object.
\<close>

definition points :: "(jsstring \<times> int) list \<Rightarrow> jsstring \<Rightarrow> int" where
  "points sc k = (case map_of sc k of None \<Rightarrow> 0 | Some n \<Rightarrow> n)"

definition rubric :: "(jsstring \<times> int) list \<Rightarrow> json" where
  "rubric sc = JObj (map (\<lambda>(k, n). (k, JNum (Finite (of_int n)))) sc)"

section \<open>Result cache: \<open>getCachedResult\<close>, \<open>setCachedResult\<close>\<close>

text \<open>
  The cache is the object kept as JSON text under the key \<open>jironautCache\<close> of the local
  storage. Both functions parse the text, use the object and (for the write) serialise it
  again; the model keeps the object itself, a flat mapping from cleaned input to final
  response text. \<open>cache[input]\<close> is the stored text when the object has the key, and
  otherwise the inherited member when \<open>input\<close> names a property of \<open>Object.prototype\<close>.
\<close>

definition getCachedResult :: "jsstring obj \<Rightarrow> jsstring \<Rightarrow> content option" where
  "getCachedResult cache inp =
     (case getProp cache inp of
        Some stored \<Rightarrow> Some (Text stored)
      | None \<Rightarrow> if inp \<in> set objectPrototype then Some (Member inp) else None)"

text \<open>
  \<open>cache[input] = result\<close>: under the name \<open>__proto__\<close>, when the object has no such key
  of its own, the assignment goes to the inherited setter, which ignores a string.
\<close>

definition setCachedResult :: "jsstring obj \<Rightarrow> jsstring \<Rightarrow> jsstring \<Rightarrow> jsstring obj" where
  "setCachedResult cache inp result =
     (if inp = js ''__proto__'' \<and> getProp cache inp = None then cache
      else AList.update inp result cache)"

text \<open>What \<open>if (cached)\<close> takes for true.\<close>

fun truthyContent :: "content \<Rightarrow> bool" where
  "truthyContent (Text t) = (t \<noteq> [])"
| "truthyContent (Member k) = True"

section \<open>Resilient completion client: \<open>chatWithRetry\<close>\<close>

text \<open>
  The network log: how many upstream calls have been made, and the delays in milliseconds
  passed to \<open>setTimeout\<close>, in order.
\<close>

record wire =
  calls :: nat
  delays :: "nat list"

datatype completion = Returned jsstring | ReturnedUndefined | Thrown js_error

text \<open>\<open>String(err?.message || "")\<close>\<close>

definition errorText :: "js_error \<Rightarrow> jsstring" where
  "errorText err = (case message err of None \<Rightarrow> [] | Some m \<Rightarrow> m)"

definition billingPhrase :: jsstring where
  "billingPhrase = js ''check your plan and billing''"

definition billingErrorMessage :: jsstring where
  "billingErrorMessage =
     js ''OpenAI: quota/billing exceeded. Add billing to your account.''"

definition billingError :: js_error where
  "billingError = \<lparr>message = Some billingErrorMessage, status = None\<rparr>"

text \<open>
  The loop \<open>for (let attempt = 0; attempt <= retries; attempt++)\<close>, from a given
  \<open>attempt\<close>. A function that leaves the loop without returning gives \<open>undefined\<close>.
\<close>

function chatWithRetry_from ::
  "(payload \<Rightarrow> nat \<Rightarrow> outcome) \<Rightarrow> payload \<Rightarrow> nat \<Rightarrow> nat \<Rightarrow> nat \<Rightarrow> wire \<Rightarrow> completion \<times> wire"
where
  "chatWithRetry_from upstream p retries baseDelayMs attempt w =
     (if attempt \<le> retries then
        (case upstream p (calls w) of
           Resolved response \<Rightarrow> (Returned response, w\<lparr>calls := calls w + 1\<rparr>)
         | Rejected err \<Rightarrow>
             (if str_includes (errorText err) billingPhrase
              then (Thrown billingError, w\<lparr>calls := calls w + 1\<rparr>)
              else if status err = Some 429 \<and> attempt < retries
              then chatWithRetry_from upstream p retries baseDelayMs (attempt + 1)
                     (w\<lparr>calls := calls w + 1,
                        delays := delays w @ [baseDelayMs * 2 ^ attempt]\<rparr>)
              else (Thrown err, w\<lparr>calls := calls w + 1\<rparr>)))
      else (ReturnedUndefined, w))"
  by pat_completeness auto
termination
  by (relation "measure (\<lambda>(upstream, p, retries, baseDelayMs, attempt, w). retries + 1 - attempt)")
    auto

declare chatWithRetry_from.simps [simp del]

definition chatWithRetry ::
  "(payload \<Rightarrow> nat \<Rightarrow> outcome) \<Rightarrow> payload \<Rightarrow> nat \<Rightarrow> nat \<Rightarrow> wire \<Rightarrow> completion \<times> wire"
where
  "chatWithRetry upstream p retries baseDelayMs w =
     chatWithRetry_from upstream p retries baseDelayMs 0 w"

section \<open>Mode classifier and prompt builder: the head of \<open>sendMessage\<close>\<close>

definition systemPrompt :: jsstring where
  "systemPrompt =
     js ''You are Jironaut, a Jira co-pilot. You ONLY help with writing, scoring, and improving Jira tickets. You never answer unrelated questions. Always respond in a structured way: either as a draft Jira ticket or as a scoring report.''"

definition draftPrompt :: jsstring where
  "draftPrompt =
     js ''Draft a Jira ticket from the following brief. \<newline>''
     @ js ''Return JSON with:\<newline>''
     @ js ''- title (''
     @ [8804]
     @ js ''80 chars, action + context)\<newline>''
     @ js ''- description_markdown (with sections: Why, What, Constraints)\<newline>''
     @ js ''- acceptance_criteria (4''
     @ [8211]
     @ js ''8 Gherkin-style items)\<newline>''
     @ js ''- labels (''
     @ [8804]
     @ js ''5, kebab-case)\<newline>''
     @ js ''Rules:\<newline>''
     @ js ''- If details are missing, add a ''
     @ [34]
     @ js ''Questions''
     @ [34]
     @ js '' section at the end.\<newline>''
     @ js ''- Include risk_notes, qa_checks, and assumptions if relevant.\<newline>''
     @ js ''- Keep tone clear, concise, and Jira-ready.\<newline>''"

definition scoreSystemPrompt :: jsstring where
  "scoreSystemPrompt =
     js ''\<newline>''
     @ js ''You are Jironaut, a Jira ticket reviewer. \<newline>''
     @ js ''Score tickets against 8 criteria (total 100 points):\<newline>''
     @ js ''- Title clarity (10), Description completeness (15), Benefit Hypothesis (20), Leading Indicators (15),\<newline>''
     @ js ''  Strategic alignment (10), Risk/Impact (10), Dependencies (10), Scope clarity (10).\<newline>''
     @ js ''Return JSON with: individual scores, total %, one badge, one positive note, one area to improve, \<newline>''
     @ js ''and ask if user wants rewrite.\<newline>''
     @ js ''Badges:\<newline>''
     @ js ''- Visionary Thinker ''
     @ [55356, 57119]
     @ js '': Benefit+Alignment+Indicators ''
     @ [8805]
     @ js '' 40/45\<newline>''
     @ js ''- Feature Architect ''
     @ [55358, 56800]
     @ js '': Total ''
     @ [8805]
     @ js '' 85%\<newline>''
     @ js ''- Clarity Champion ''
     @ [55358, 56647]
     @ js '': Title+Description+Scope ''
     @ [8805]
     @ js '' 30/35\<newline>''
     @ js ''- Risk Wrangler ''
     @ [9878, 65039]
     @ js '': Risk+Dependencies ''
     @ [8805]
     @ js '' 15/20\<newline>''"

definition scorePrompt :: jsstring where
  "scorePrompt =
     js ''Evaluate the following Jira ticket:''"

definition unsupportedPrompt :: jsstring where
  "unsupportedPrompt =
     js ''Only Jira-related drafting and scoring tasks are supported.''"

datatype mode = Draft | Score | Unsupported

text \<open>
  The branch taken by the \<open>if\<close> chain of \<open>sendMessage\<close> and the three variables it sets.
\<close>

record prepared =
  mode :: mode
  systemContent :: jsstring
  modePrompt :: jsstring
  cleanedInput :: jsstring

definition classify :: "jsstring \<Rightarrow> prepared" where
  "classify inp =
     (let cleaned = trim inp in
      if startsWith (toLowerCase cleaned) (js ''draft:'') then
        \<lparr>mode = Draft, systemContent = systemPrompt, modePrompt = draftPrompt,
         cleanedInput = trim (slice cleaned 6)\<rparr>
      else if startsWith (toLowerCase cleaned) (js ''score:'') then
        \<lparr>mode = Score, systemContent = systemPrompt @ scoreSystemPrompt,
         modePrompt = scorePrompt, cleanedInput = trim (slice cleaned 6)\<rparr>
      else
        \<lparr>mode = Unsupported, systemContent = systemPrompt, modePrompt = unsupportedPrompt,
         cleanedInput = cleaned\<rparr>)"

definition newMessages :: "chat_message list \<Rightarrow> prepared \<Rightarrow> chat_message list" where
  "newMessages history p =
     [\<lparr>role = System, content = Text (systemContent p)\<rparr>]
     @ filter (\<lambda>m. role m \<noteq> System) history
     @ [\<lparr>role = User,
         content = Text (modePrompt p @ js ''\<newline>\<newline>'' @ cleanedInput p)\<rparr>]"

section \<open>Response assembler: the body of \<open>sendMessage\<close>\<close>

definition badgeValue :: "jsstring option \<Rightarrow> json" where
  "badgeValue b = (case b of None \<Rightarrow> JNull | Some label \<Rightarrow> JStr label)"

text \<open>\<open>parsed.total = total; parsed.badge = badge\<close>\<close>

definition withScore :: "(jsstring \<times> json) list \<Rightarrow> score_result \<Rightarrow> json" where
  "withScore ps r =
     JObj (AList.update (js ''badge'') (badgeValue (badge r))
            (AList.update (js ''total'') (JNum (total r)) ps))"

text \<open>
  The inner \<open>try\<close> block and the statement after it. \<open>Scored\<close> is the path that returns
  from inside the block, \<open>Raw\<close> the one that falls through to the raw text: on a
  \<open>SyntaxError\<close> of \<open>JSON.parse\<close>, on the \<open>TypeError\<close> of reading \<open>scores\<close> of \<open>null\<close>, on
  a \<open>TypeError\<close> inside \<open>calculateBadgeAndTotal\<close> (all caught), and when
  \<open>parsed.scores\<close> is \<open>undefined\<close> or another falsy value.
\<close>

datatype reply = Scored jsstring | Raw jsstring

definition assemble :: "platform \<Rightarrow> jsstring \<Rightarrow> reply" where
  "assemble pf aiMessage =
     (case json_parse pf aiMessage of
        None \<Rightarrow> Raw aiMessage
      | Some parsed \<Rightarrow>
          (case parsed of
             JObj ps \<Rightarrow>
               (case getProp ps (js ''scores'') of
                  None \<Rightarrow> Raw aiMessage
                | Some sv \<Rightarrow>
                    if truthy sv then
                      (case calculateBadgeAndTotal pf sv of
                         None \<Rightarrow> Raw aiMessage
                       | Some r \<Rightarrow> Scored (json_stringify pf (withScore ps r)))
                    else Raw aiMessage)
           | _ \<Rightarrow> Raw aiMessage))"

definition quotaMessage :: jsstring where
  "quotaMessage =
     [9888, 65039]
     @ js '' OpenAI says your quota is exceeded. Add a payment method or top up credits.''"

definition rateLimitMessage :: jsstring where
  "rateLimitMessage =
     [9888, 65039]
     @ js '' We''
     @ [8217]
     @ js ''re sending requests too quickly. Please wait a moment and try again.''"

definition humanMessage :: "js_error \<Rightarrow> jsstring" where
  "humanMessage err =
     (if str_includes (errorText err) (js ''billing'') then quotaMessage else rateLimitMessage)"

text \<open>
  Reading \<open>choices\<close> of \<open>undefined\<close> throws a \<open>TypeError\<close>; its message is the engine's
  (here V8's).
\<close>

definition typeError :: js_error where
  "typeError =
     \<lparr>message = Some (js ''Cannot read properties of undefined (reading '' @ [39]
                        @ js ''choices'' @ [39] @ js '')''),
      status = None\<rparr>"

text \<open>
  The state a run of \<open>sendMessage\<close> reads and writes: the three state variables of the
  component, the cache in local storage, and the network log.
\<close>

record app_state =
  messages :: "chat_message list"
  input :: jsstring
  isLoading :: bool
  jironautCache :: "jsstring obj"
  net :: wire

definition requestPayload :: "chat_message list \<Rightarrow> payload" where
  "requestPayload ms =
     \<lparr>model = js ''gpt-4o-mini'', payload_messages = ms,
      response_format = js ''json_object'', temperature = 0\<rparr>"

text \<open>
  The part of \<open>sendMessage\<close> after a cache miss: \<open>setIsLoading(true)\<close>, the outer \<open>try\<close>
  with its \<open>catch\<close>, and \<open>setIsLoading(false)\<close> in \<open>finally\<close>. \<open>chatWithRetry\<close> is called
  with its default options.
\<close>

definition complete :: "platform \<Rightarrow> app_state \<Rightarrow> prepared \<Rightarrow> chat_message list \<Rightarrow> app_state"
where
  "complete pf s p ms =
     (case chatWithRetry (create pf) (requestPayload ms) 3 800 (net s) of
        (Returned aiMessage, w) \<Rightarrow>
          (case assemble pf aiMessage of
             Scored finalMessage \<Rightarrow>
               s\<lparr>messages := ms @ [\<lparr>role = Assistant, content = Text finalMessage\<rparr>],
                 jironautCache :=
                   setCachedResult (jironautCache s) (cleanedInput p) finalMessage,
                 isLoading := False, net := w\<rparr>
           | Raw aiText \<Rightarrow>
               s\<lparr>messages := ms @ [\<lparr>role = Assistant, content = Text aiText\<rparr>],
                 isLoading := False, net := w\<rparr>)
      | (ReturnedUndefined, w) \<Rightarrow>
          s\<lparr>messages := ms @ [\<lparr>role = Assistant, content = Text (humanMessage typeError)\<rparr>],
            isLoading := False, net := w\<rparr>
      | (Thrown err, w) \<Rightarrow>
          s\<lparr>messages := ms @ [\<lparr>role = Assistant, content = Text (humanMessage err)\<rparr>],
            isLoading := False, net := w\<rparr>)"

text \<open>\<open>sendMessage\<close>. The result is the state when the returned promise has settled.\<close>

definition sendMessage :: "platform \<Rightarrow> app_state \<Rightarrow> app_state" where
  "sendMessage pf s =
     (if trim (input s) = [] \<or> isLoading s then s
      else
        let p = classify (input s);
            ms = newMessages (messages s) p;
            s1 = s\<lparr>messages := ms, input := []\<rparr>
        in case getCachedResult (jironautCache s1) (cleanedInput p) of
             None \<Rightarrow> complete pf s1 p ms
           | Some cached \<Rightarrow>
               if truthyContent cached
               then s1\<lparr>messages := ms @ [\<lparr>role = Assistant, content = cached\<rparr>]\<rparr>
               else complete pf s1 p ms)"

section \<open>Sample data\<close>

text \<open>Every criterion at its maximum: 100 points.\<close>

definition fullMarks :: "(jsstring \<times> int) list" where
  "fullMarks =
     [(js ''Title clarity'', 10), (js ''Description completeness'', 15),
      (js ''Benefit Hypothesis'', 20), (js ''Leading Indicators'', 15),
      (js ''Strategic alignment'', 10), (js ''Risk/Impact'', 10),
      (js ''Dependencies'', 10), (js ''Scope clarity'', 10)]"

text \<open>An upstream service that answers every call with HTTP 429.\<close>

definition tooManyRequests :: js_error where
  "tooManyRequests = \<lparr>message = Some (js ''Rate limit reached''), status = Some 429\<rparr>"

definition alwaysLimited :: "payload \<Rightarrow> nat \<Rightarrow> outcome" where
  "alwaysLimited p n = Rejected tooManyRequests"

text \<open>An upstream service that reports exhausted quota, here with HTTP 429 as well.\<close>

definition quotaExceeded :: js_error where
  "quotaExceeded =
     \<lparr>message = Some (js ''You exceeded your current quota, please check your plan and billing details.''),
      status = Some 429\<rparr>"

definition alwaysQuota :: "payload \<Rightarrow> nat \<Rightarrow> outcome" where
  "alwaysQuota p n = Rejected quotaExceeded"

text \<open>An upstream service that refuses every call for another reason.\<close>

definition invalidAddress :: js_error where
  "invalidAddress = \<lparr>message = Some (js ''Invalid billing address''), status = Some 400\<rparr>"

definition alwaysInvalid :: "payload \<Rightarrow> nat \<Rightarrow> outcome" where
  "alwaysInvalid p n = Rejected invalidAddress"

definition idle :: wire where
  "idle = \<lparr>calls = 0, delays = []\<rparr>"

text \<open>
  A conversation state with the input \<open>hello\<close>, which has no mode prefix, and a cache that
  holds an entry for it; a platform whose upstream service answers with plain text. The
  conversions between numbers and strings play no part in the samples.
\<close>

definition helloState :: app_state where
  "helloState =
     \<lparr>messages = [], input = js ''hello'', isLoading = False,
      jironautCache = [(js ''hello'', js ''earlier answer'')], net = idle\<rparr>"

definition plainPlatform :: platform where
  "plainPlatform =
     \<lparr>create = (\<lambda>p n. Resolved (js ''fresh answer'')),
      json_parse = (\<lambda>t. None),
      json_stringify = (\<lambda>j. js ''{}''),
      number_to_string = (\<lambda>n. js ''0''),
      string_to_number = (\<lambda>t. NaN)\<rparr>"

text \<open>
  A scoring request, and three platforms for it. The upstream service of the first
  answers with the object \<open>{"scores":null}\<close>, that of the second with a score that is an
  object with a \<open>toString\<close> key, that of the third with Risk/Impact 10 and Dependencies 10
  as scores.
\<close>

definition scoreState :: app_state where
  "scoreState =
     \<lparr>messages = [], input = js ''score: Add login'', isLoading = False,
      jironautCache = [], net = idle\<rparr>"






definition riskScoresText :: jsstring where
  "riskScoresText =
     js ''{'' @ [34] @ js ''scores'' @ [34] @ js '':{'' @ [34] @ js ''Risk/Impact'' @ [34]
     @ js '':10,'' @ [34] @ js ''Dependencies'' @ [34] @ js '':10}}''"

definition riskScores :: "(jsstring \<times> int) list" where
  "riskScores = [(js ''Risk/Impact'', 10), (js ''Dependencies'', 10)]"

definition riskFinalText :: jsstring where
  "riskFinalText =
     js ''{'' @ [34] @ js ''scores'' @ [34] @ js '':{'' @ [34] @ js ''Risk/Impact'' @ [34]
     @ js '':10,'' @ [34] @ js ''Dependencies'' @ [34] @ js '':10},'' @ [34] @ js ''total''
     @ [34] @ js '':20,'' @ [34] @ js ''badge'' @ [34] @ js '':'' @ [34]
     @ js ''Risk Wrangler '' @ [9878, 65039] @ [34] @ js ''}''"

definition riskScoresPlatform :: platform where
  "riskScoresPlatform =
     plainPlatform
     \<lparr>create := (\<lambda>p n. Resolved riskScoresText),
      json_parse := (\<lambda>t. if t = riskScoresText then Some (JObj [(js ''scores'', rubric riskScores)])
                          else None),
      json_stringify :=
        (\<lambda>j. if j = JObj [(js ''scores'', rubric riskScores), (js ''total'', JNum (Finite 20)),
                            (js ''badge'', JStr (js ''Risk Wrangler '' @ [9878, 65039]))]
             then riskFinalText else js ''{}'')\<rparr>"

text \<open>Platforms whose upstream service rejects every call.\<close>

definition limitedPlatform :: platform where
  "limitedPlatform = plainPlatform\<lparr>create := alwaysLimited\<rparr>"

definition quotaPlatform :: platform where
  "quotaPlatform = plainPlatform\<lparr>create := alwaysQuota\<rparr>"

definition invalidPlatform :: platform where
  "invalidPlatform = plainPlatform\<lparr>create := alwaysInvalid\<rparr>"

section \<open>Double arithmetic\<close>

lemma roundHalfEven_near: "\<bar>of_int (roundHalfEven t) - t\<bar> \<le> 1 / 2"
proof -
  have "of_int \<lfloor>t\<rfloor> \<le> t" "t < of_int \<lfloor>t\<rfloor> + 1" by linarith+
  then show ?thesis
    by (auto simp add: roundHalfEven_def Let_def abs_le_iff)
qed

lemma roundHalfEven_of_int [simp]: "roundHalfEven (of_int n) = n"
  by (simp add: roundHalfEven_def)

lemma bitlen_powi:
  assumes "0 < m"
  shows "2 powi (bitlen m - 1) \<le> (of_int m :: rat)" and "(of_int m :: rat) < 2 powi (bitlen m)"
proof -
  from assms have b: "1 \<le> bitlen m" by (auto simp add: bitlen_alt_def)
  from bitlen_bounds[OF assms] have l: "2 ^ nat (bitlen m - 1) \<le> m" and u: "m < 2 ^ nat (bitlen m)"
    by simp_all
  have "(of_int (2 ^ nat (bitlen m - 1)) :: rat) \<le> of_int m"
    using l by (simp only: of_int_le_iff)
  then show "2 powi (bitlen m - 1) \<le> (of_int m :: rat)"
    using b by (simp add: power_int_nonneg_exp)
  have "(of_int m :: rat) < of_int (2 ^ nat (bitlen m))"
    using u by (simp only: of_int_less_iff)
  then show "(of_int m :: rat) < 2 powi (bitlen m)"
    using b by (simp add: power_int_nonneg_exp)
qed

lemma ilog2_bounds:
  assumes "0 < a"
  shows "2 powi (ilog2 a) \<le> a" and "a < 2 powi (ilog2 a + 1)"
proof -
  obtain p q where pq: "quotient_of a = (p, q)" by (cases "quotient_of a")
  then have q: "0 < q" and a: "a = of_int p / of_int q"
    by (simp_all add: quotient_of_denom_pos quotient_of_div)
  from assms a q have p: "0 < p"
    by (simp add: zero_less_divide_iff)
  let ?k = "bitlen p - bitlen q"
  have pl: "2 powi (bitlen p - 1) \<le> (of_int p :: rat)" and pu: "(of_int p :: rat) < 2 powi (bitlen p)"
    using bitlen_powi[OF p] by simp_all
  have ql: "2 powi (bitlen q - 1) \<le> (of_int q :: rat)" and qu: "(of_int q :: rat) < 2 powi (bitlen q)"
    using bitlen_powi[OF q] by simp_all
  have qpos: "(0::rat) < of_int q" using q by simp
  have lo: "2 powi (?k - 1) \<le> a"
  proof -
    have "2 powi (?k - 1) * (of_int q :: rat) \<le> 2 powi (?k - 1) * 2 powi (bitlen q)"
      using qu by (intro mult_left_mono) simp_all
    also have "\<dots> = 2 powi (bitlen p - 1)"
      by (simp add: power_int_add[symmetric])
    also have "\<dots> \<le> of_int p" by (rule pl)
    finally show ?thesis
      unfolding a using qpos by (simp add: pos_le_divide_eq)
  qed
  have hi: "a < 2 powi (?k + 1)"
  proof -
    have "(of_int p :: rat) < 2 powi (bitlen p)" by (rule pu)
    also have "\<dots> = 2 powi (?k + 1) * 2 powi (bitlen q - 1)"
      by (simp add: power_int_add[symmetric])
    also have "\<dots> \<le> 2 powi (?k + 1) * of_int q"
      using ql by (intro mult_left_mono) simp_all
    finally show ?thesis
      unfolding a using qpos by (simp add: pos_divide_less_eq)
  qed
  have d: "ilog2 a = (if 2 powi ?k \<le> a then ?k else ?k - 1)"
    by (simp add: ilog2_def pq Let_def)
  show "2 powi (ilog2 a) \<le> a"
    using lo by (simp add: d)
  show "a < 2 powi (ilog2 a + 1)"
    using hi by (auto simp add: d not_le)
qed

lemma exp_less:
  assumes "2 powi e \<le> (a::rat)" and "a < 2 powi k"
  shows "e < k"
proof (rule ccontr)
  assume "\<not> e < k"
  then have "(2::rat) powi k \<le> 2 powi e"
    by (intro power_int_increasing) simp_all
  with assms show False by simp
qed

text \<open>A result below \<open>2 powi k\<close> in size is rounded by at most \<open>2 powi (k - 54)\<close>.\<close>

lemma fl_error:
  assumes "\<bar>x\<bar> < 2 powi k" and "- 1021 \<le> k" and "k \<le> 1023"
  shows "\<exists>r. fl x = Finite r \<and> \<bar>r - x\<bar> \<le> 2 powi (k - 54)"
proof (cases "x = 0")
  case True
  then show ?thesis by (simp add: fl_def)
next
  case False
  define a where "a = \<bar>x\<bar>"
  define e where "e = max (ilog2 a) (- 1022)"
  define q :: rat where "q = 2 powi (e - 52)"
  define r where "r = of_int (roundHalfEven (a / q)) * q"
  from False have apos: "0 < a" by (simp add: a_def)
  have "ilog2 a < k"
    using ilog2_bounds(1)[OF apos] assms(1) unfolding a_def[symmetric] by (rule exp_less)
  with assms(2) have ek: "e \<le> k - 1" by (simp add: e_def)
  have qpos: "0 < q" by (simp add: q_def)
  have half: "q / 2 = 2 powi (e - 53)"
    by (simp add: q_def power_int_diff)
  have "(2::rat) powi (e - 53) \<le> 2 powi (k - 54)"
    using ek by (intro power_int_increasing) simp_all
  with half have qk: "q / 2 \<le> 2 powi (k - 54)" by simp
  have "\<bar>of_int (roundHalfEven (a / q)) - a / q\<bar> * q \<le> 1 / 2 * q"
    using roundHalfEven_near[of "a / q"] qpos by (intro mult_right_mono) simp_all
  moreover have "\<bar>of_int (roundHalfEven (a / q)) - a / q\<bar> * q = \<bar>r - a\<bar>"
  proof -
    have "(of_int (roundHalfEven (a / q)) - a / q) * q = r - a"
      using qpos by (simp add: r_def left_diff_distrib)
    then have "\<bar>r - a\<bar> = \<bar>of_int (roundHalfEven (a / q)) - a / q\<bar> * \<bar>q\<bar>"
      by (simp only: abs_mult[symmetric])
    with qpos show ?thesis by simp
  qed
  ultimately have err: "\<bar>r - a\<bar> \<le> q / 2" by simp
  have "(2::rat) powi k \<le> 2 powi 1023" "(2::rat) powi (k - 54) \<le> 2 powi 1023"
    using assms(3) by (intro power_int_increasing; simp)+
  moreover have "r \<le> a + q / 2" using err by linarith
  moreover have "(2::rat) powi 1024 = 2 powi 1023 + 2 powi 1023"
    by (simp add: power_int_add_1[where m = 1023, simplified])
  ultimately have fin: "\<not> 2 powi 1024 \<le> r"
    using assms(1) qk unfolding a_def[symmetric] by linarith
  have "fl x = Finite (if 0 < x then r else - r)"
    using False fin by (simp add: fl_def Let_def a_def e_def q_def r_def)
  moreover have "\<bar>(if 0 < x then r else - r) - x\<bar> = \<bar>r - a\<bar>"
    using False by (auto simp add: a_def abs_if)
  ultimately show ?thesis
    using err qk by auto
qed

text \<open>Integers below \<open>2 ^ 53\<close> in size are doubles.\<close>

lemma fl_int:
  assumes "\<bar>n\<bar> < 2 ^ 53"
  shows "fl (of_int n) = Finite (of_int n)"
proof (cases "n = 0")
  case True
  then show ?thesis by (simp add: fl_def)
next
  case False
  define a :: rat where "a = of_int \<bar>n\<bar>"
  define e where "e = ilog2 a"
  from False have a1: "1 \<le> a" by (simp add: a_def)
  then have apos: "0 < a" by simp
  have "a < of_int (2 ^ 53)" unfolding a_def using assms by (simp only: of_int_less_iff)
  then have "a < 2 powi 53" by simp
  with ilog2_bounds(1)[OF apos] have e52: "e \<le> 52"
    unfolding e_def[symmetric] using exp_less[of e a 53] by simp
  have "2 powi 0 \<le> a" using a1 by simp
  with ilog2_bounds(2)[OF apos] have e0: "0 \<le> e"
    unfolding e_def[symmetric] using exp_less[of 0 a "e + 1"] by simp
  then have emax: "max e (- 1022) = e" by simp
  define j where "j = nat (52 - e)"
  have q: "(2::rat) powi (e - 52) = 1 / 2 ^ j"
    using e52 by (simp add: j_def power_int_def nat_diff_distrib' field_simps)
  have aq: "a / (1 / 2 ^ j) = of_int (\<bar>n\<bar> * 2 ^ j)"
    by (simp add: a_def)
  have r: "of_int (roundHalfEven (a / (1 / 2 ^ j))) * (1 / 2 ^ j) = a"
    unfolding aq roundHalfEven_of_int by (simp add: a_def)
  have "a < 2 powi 1024"
    using \<open>a < 2 powi 53\<close> power_int_increasing[of 53 1024 "2::rat"] by simp
  then have fin: "\<not> 2 powi 1024 \<le> a" by simp
  have ax: "\<bar>(of_int n :: rat)\<bar> = a" by (simp add: a_def)
  have r': "of_int (roundHalfEven (\<bar>of_int n\<bar> / 2 powi (max (ilog2 \<bar>of_int n\<bar>) (- 1022) - 52)))
              * 2 powi (max (ilog2 \<bar>of_int n\<bar>) (- 1022) - 52) = a"
    unfolding ax e_def[symmetric] emax q by (rule r)
  have "fl (of_int n) = Finite (if 0 < (of_int n :: rat) then a else - a)"
    unfolding fl_def Let_def r' using False fin by simp
  moreover have "(if 0 < (of_int n :: rat) then a else - a) = of_int n"
    using False by (auto simp add: a_def abs_if)
  ultimately show ?thesis by simp
qed

lemma numAdd_int:
  assumes "\<bar>a + b\<bar> < 2 ^ 53"
  shows "numAdd (Finite (of_int a)) (Finite (of_int b)) = Finite (of_int (a + b))"
  using fl_int[OF assms] by simp

text \<open>
  Dividing by 100 and multiplying by 100 again moves a number of size at most \<open>2 ^ 40\<close>
  by less than a thousandth.
\<close>

lemma scale_near:
  assumes "\<bar>x\<bar> \<le> 2 ^ 40"
  shows "\<exists>z. numMul (numDiv (Finite x) 100) 100 = Finite z \<and> \<bar>z - x\<bar> \<le> 1 / 1000"
proof -
  have "\<bar>x / 100\<bar> < 2 powi 34" using assms by simp
  from fl_error[OF this] obtain y where y: "fl (x / 100) = Finite y"
    and ey: "\<bar>y - x / 100\<bar> \<le> 2 powi (34 - 54)" by auto
  have "y * 100 - x = 100 * (y - x / 100)" by simp
  then have "\<bar>y * 100 - x\<bar> = 100 * \<bar>y - x / 100\<bar>"
    by (simp only: abs_mult)
  with ey have ey': "\<bar>y * 100 - x\<bar> \<le> 100 / 2 ^ 20"
    by simp
  moreover have "(2::rat) ^ 41 = 2 * 2 ^ 40" "(100::rat) / 2 ^ 20 < 2 ^ 40" by simp_all
  ultimately have "\<bar>y * 100\<bar> < 2 ^ 41" using assms by linarith
  then have "\<bar>y * 100\<bar> < 2 powi 41" by simp
  from fl_error[OF this] obtain z where z: "fl (y * 100) = Finite z"
    and ez: "\<bar>z - y * 100\<bar> \<le> 2 powi (41 - 54)" by auto
  from ez have "\<bar>z - y * 100\<bar> \<le> 1 / 2 ^ 13" by simp
  moreover have "(100::rat) / 2 ^ 20 + 1 / 2 ^ 13 \<le> 1 / 1000" by simp
  ultimately have "\<bar>z - x\<bar> \<le> 1 / 1000"
    using ey' by linarith
  with y z show ?thesis by simp
qed

lemma round_near:
  assumes "\<bar>z - of_int n\<bar> \<le> 1 / 1000"
  shows "mathRound (Finite z) = Finite (of_int n)"
proof -
  have "of_int n \<le> z + 1 / 2" "z + 1 / 2 < of_int n + 1"
    using assms by linarith+
  then have "\<lfloor>z + 1 / 2\<rfloor> = n"
    by (rule floor_unique)
  then show ?thesis by simp
qed

lemma total_int:
  assumes "\<bar>n\<bar> \<le> 2 ^ 40"
  shows "mathRound (numMul (numDiv (Finite (of_int n)) 100) 100) = Finite (of_int n)"
proof -
  have "\<bar>(of_int n :: rat)\<bar> \<le> of_int (2 ^ 40)"
    using assms by (simp only: of_int_abs[symmetric] of_int_le_iff)
  then have "\<bar>(of_int n :: rat)\<bar> \<le> 2 ^ 40" by simp
  from scale_near[OF this] obtain z
    where "numMul (numDiv (Finite (of_int n)) 100) 100 = Finite z"
      and "\<bar>z - of_int n\<bar> \<le> 1 / 1000" by auto
  then show ?thesis by (simp only: round_near)
qed

section \<open>The operators\<close>










text \<open>What a call of \<open>calculateBadgeAndTotal\<close> that returns has computed.\<close>

lemma calculate_result:
  assumes "calculateBadgeAndTotal pf scores = Some r"
  shows "\<exists>obtained x b c rd b1 b3 b4.
           scores \<noteq> JNull
           \<and> sum_values pf (JNum (Finite 0)) (forInValues scores) = Some obtained
           \<and> toNumber pf obtained = Some x
           \<and> total r = mathRound (numMul (numDiv x 100) 100)
           \<and> benefit pf scores = Some b \<and> clarity pf scores = Some c
           \<and> riskDeps pf scores = Some rd
           \<and> jsGe pf b (Finite 40) = Some b1 \<and> jsGe pf c (Finite 30) = Some b3
           \<and> jsGe pf rd (Finite 15) = Some b4
           \<and> badge r = (if b4 then Some risk_wrangler
                        else if b3 then Some clarity_champion
                        else if numGe (total r) (Finite 85) then Some feature_architect
                        else if b1 then Some visionary_thinker
                        else None)"
proof -
  note d = calculateBadgeAndTotal_def Let_def
  from assms obtain ob where ob: "sum_values pf (JNum (Finite 0)) (forInValues scores) = Some ob"
    by (cases "sum_values pf (JNum (Finite 0)) (forInValues scores)") (simp_all add: d)
  from assms ob obtain x where x: "toNumber pf ob = Some x"
    by (cases "toNumber pf ob") (simp_all add: d)
  from assms ob x have n: "scores \<noteq> JNull"
    by (cases "scores = JNull") (simp_all add: d)
  from assms ob x n obtain b where b: "benefit pf scores = Some b"
    by (cases "benefit pf scores") (simp_all add: d)
  from assms ob x n b obtain c where c: "clarity pf scores = Some c"
    by (cases "clarity pf scores") (simp_all add: d)
  from assms ob x n b c obtain rd where rd: "riskDeps pf scores = Some rd"
    by (cases "riskDeps pf scores") (simp_all add: d)
  from assms ob x n b c rd obtain b1 where b1: "jsGe pf b (Finite 40) = Some b1"
    by (cases "jsGe pf b (Finite 40)") (simp_all add: d)
  from assms ob x n b c rd b1 obtain b3 where b3: "jsGe pf c (Finite 30) = Some b3"
    by (cases "jsGe pf c (Finite 30)") (simp_all add: d)
  from assms ob x n b c rd b1 b3 obtain b4 where b4: "jsGe pf rd (Finite 15) = Some b4"
    by (cases "jsGe pf rd (Finite 15)") (simp_all add: d)
  from assms ob x n b c rd b1 b3 b4
  have r: "r = \<lparr>total = mathRound (numMul (numDiv x 100) 100),
                 badge = (if b4 then Some risk_wrangler
                          else if b3 then Some clarity_champion
                          else if numGe (mathRound (numMul (numDiv x 100) 100)) (Finite 85)
                               then Some feature_architect
                          else if b1 then Some visionary_thinker
                          else None)\<rparr>"
    by (simp add: d)
  have "total r = mathRound (numMul (numDiv x 100) 100)"
    by (simp add: r)
  moreover have "badge r = (if b4 then Some risk_wrangler
                        else if b3 then Some clarity_champion
                        else if numGe (total r) (Finite 85) then Some feature_architect
                        else if b1 then Some visionary_thinker
                        else None)"
    by (simp add: r)
  ultimately show ?thesis
    using ob x n b c rd b1 b3 b4 by blast
qed


section \<open>The rubric scorer\<close>

lemma total_near:
  assumes "\<bar>x\<bar> \<le> 2 ^ 39"
    and "of_int n - 1 / 2 + 1 / 250 \<le> x" and "x \<le> of_int n + 1 / 2 - 1 / 250"
  shows "\<exists>y. fl x = Finite y \<and> mathRound (numMul (numDiv (Finite y) 100) 100) = Finite (of_int n)"
proof -
  have p: "(2::rat) ^ 40 = 2 * 2 ^ 39" "(1::rat) \<le> 2 ^ 39" by simp_all
  with assms(1) have "\<bar>x\<bar> < 2 ^ 40" by linarith
  then have "\<bar>x\<bar> < 2 powi 40" by simp
  from fl_error[OF this] obtain y where y: "fl x = Finite y"
    and "\<bar>y - x\<bar> \<le> 2 powi (40 - 54)" by auto
  then have ey: "\<bar>y - x\<bar> \<le> 1 / 1000" by simp
  with assms(1) p have "\<bar>y\<bar> \<le> 2 ^ 40" by linarith
  from scale_near[OF this] obtain z
    where z: "numMul (numDiv (Finite y) 100) 100 = Finite z" and ez: "\<bar>z - y\<bar> \<le> 1 / 1000"
    by auto
  have "of_int n \<le> z + 1 / 2" "z + 1 / 2 < of_int n + 1"
    using ey ez assms(2,3) by linarith+
  then have "\<lfloor>z + 1 / 2\<rfloor> = n" by (rule floor_unique)
  with y z show ?thesis by simp
qed

lemma jsAdd_int:
  assumes "\<bar>a + b\<bar> < 2 ^ 53"
  shows "jsAdd pf (JNum (Finite (of_int a))) (JNum (Finite (of_int b)))
           = Some (JNum (Finite (of_int (a + b))))"
  using fl_int[OF assms] by (simp add: jsAdd_def)

lemma jsGe_int: "jsGe pf (JNum (Finite (of_int a))) (Finite (of_int c)) = Some (c \<le> a)"
  by (simp add: jsGe_def)

lemma forInValues_rubric:
  "forInValues (rubric sc) = map (\<lambda>n. JNum (Finite (of_int n))) (map snd sc)"
  by (simp add: rubric_def case_prod_beta)

lemma sum_values_int:
  assumes "\<bar>a\<bar> + (\<Sum>n\<leftarrow>ns. \<bar>n\<bar>) < 2 ^ 53"
  shows "sum_values pf (JNum (Finite (of_int a))) (map (\<lambda>n. JNum (Finite (of_int n))) ns)
           = Some (JNum (Finite (of_int (a + sum_list ns))))"
  using assms
proof (induction ns arbitrary: a)
  case Nil
  then show ?case by simp
next
  case (Cons n ns)
  have nn: "0 \<le> (\<Sum>n\<leftarrow>ns. \<bar>n\<bar>)" by (rule sum_list_nonneg) auto
  from Cons.prems have prem: "\<bar>a\<bar> + (\<bar>n\<bar> + (\<Sum>n\<leftarrow>ns. \<bar>n\<bar>)) < 2 ^ 53" by simp
  with nn have "\<bar>a + n\<bar> < 2 ^ 53" by linarith
  from jsAdd_int[OF this] have s: "jsAdd pf (JNum (Finite (of_int a))) (JNum (Finite (of_int n)))
      = Some (JNum (Finite (of_int (a + n))))" .
  from prem have "\<bar>a + n\<bar> + (\<Sum>n\<leftarrow>ns. \<bar>n\<bar>) < 2 ^ 53" by linarith
  from Cons.IH[OF this] s show ?case by (simp add: add.assoc)
qed

lemma field_rubric:
  "field (rubric sc) k = map_option (\<lambda>n. JNum (Finite (of_int n))) (map_of sc k)"
  by (simp add: field_def rubric_def getProp_def map_of_map)

lemma orZero_rubric: "orZero (field (rubric sc) k) = JNum (Finite (of_int (points sc k)))"
  by (cases "map_of sc k") (simp_all add: field_rubric orZero_def points_def)

lemma points_bound: "\<bar>points sc k\<bar> \<le> (\<Sum>(k, n)\<leftarrow>sc. \<bar>n\<bar>)"
proof (induction sc)
  case Nil
  then show ?case by (simp add: points_def)
next
  case (Cons e sc)
  obtain k' n where e: "e = (k', n)" by (cases e)
  have "0 \<le> (\<Sum>(k, n)\<leftarrow>sc. \<bar>n\<bar>)"
    by (rule sum_list_nonneg) auto
  with Cons show ?case
    by (auto simp add: e points_def)
qed

lemma sum_abs_snd: "(\<Sum>n\<leftarrow>map snd sc. \<bar>n\<bar>) = (\<Sum>(k, n)\<leftarrow>sc. \<bar>n\<bar>)"
  by (induction sc) auto

lemma sum_snd: "sum_list (map snd sc) = (\<Sum>(k, n)\<leftarrow>sc. n)"
  by (induction sc) auto

lemma sum_bound: "\<bar>\<Sum>(k, n)\<leftarrow>sc. n\<bar> \<le> (\<Sum>(k, n)\<leftarrow>sc. \<bar>n\<bar>)" for sc :: "(jsstring \<times> int) list"
  by (induction sc) auto

text \<open>
  On a mapping of integer points whose sizes add up to at most \<open>2 ^ 40\<close>, every sum of
  the scorer is exact.
\<close>

lemma calculate_rubric:
  assumes "(\<Sum>(k, n)\<leftarrow>sc. \<bar>n\<bar>) \<le> 2 ^ 40"
  shows "calculateBadgeAndTotal pf (rubric sc) =
           Some \<lparr>total = Finite (of_int (\<Sum>(k, n)\<leftarrow>sc. n)),
                 badge =
                   (if 15 \<le> points sc (js ''Risk/Impact'') + points sc (js ''Dependencies'')
                    then Some risk_wrangler
                    else if 30 \<le> points sc (js ''Title clarity'')
                                  + points sc (js ''Description completeness'')
                                  + points sc (js ''Scope clarity'')
                    then Some clarity_champion
                    else if 85 \<le> (\<Sum>(k, n)\<leftarrow>sc. n) then Some feature_architect
                    else if 40 \<le> points sc (js ''Benefit Hypothesis'')
                                  + points sc (js ''Strategic alignment'')
                                  + points sc (js ''Leading Indicators'')
                    then Some visionary_thinker
                    else None)\<rparr>"
proof -
  let ?B = "(\<Sum>(k, n)\<leftarrow>sc. \<bar>n\<bar>)"
  have big: "(2::int) ^ 53 = 8192 * 2 ^ 40" by simp
  have pos: "(0::int) < 2 ^ 40" by simp
  have two: "\<bar>points sc k1 + points sc k2\<bar> < 2 ^ 53" for k1 k2
    using points_bound[of sc k1] points_bound[of sc k2] assms big pos by linarith
  have three: "\<bar>points sc k1 + points sc k2 + points sc k3\<bar> < 2 ^ 53" for k1 k2 k3
    using points_bound[of sc k1] points_bound[of sc k2] points_bound[of sc k3] assms big pos
    by linarith
  have "\<bar>0::int\<bar> + (\<Sum>n\<leftarrow>map snd sc. \<bar>n\<bar>) < 2 ^ 53"
    unfolding sum_abs_snd using assms big pos by linarith
  from sum_values_int[OF this, of pf]
  have ob: "sum_values pf (JNum (Finite 0)) (forInValues (rubric sc))
              = Some (JNum (Finite (of_int (\<Sum>(k, n)\<leftarrow>sc. n))))"
    by (simp add: forInValues_rubric sum_snd)
  have "\<bar>\<Sum>(k, n)\<leftarrow>sc. n\<bar> \<le> 2 ^ 40"
    using sum_bound[of sc] assms by linarith
  from total_int[OF this]
  have t: "mathRound (numMul (numDiv (Finite (of_int (\<Sum>(k, n)\<leftarrow>sc. n))) 100) 100)
             = Finite (of_int (\<Sum>(k, n)\<leftarrow>sc. n))" .
  have b: "benefit pf (rubric sc)
             = Some (JNum (Finite (of_int (points sc (js ''Benefit Hypothesis'')
                                           + points sc (js ''Strategic alignment'')
                                           + points sc (js ''Leading Indicators'')))))"
    unfolding benefit_def orZero_rubric
    by (simp only: jsAdd_int[OF two] jsAdd_int[OF three] bind.bind_lunit)
  have c: "clarity pf (rubric sc)
             = Some (JNum (Finite (of_int (points sc (js ''Title clarity'')
                                           + points sc (js ''Description completeness'')
                                           + points sc (js ''Scope clarity'')))))"
    unfolding clarity_def orZero_rubric
    by (simp only: jsAdd_int[OF two] jsAdd_int[OF three] bind.bind_lunit)
  have r: "riskDeps pf (rubric sc)
             = Some (JNum (Finite (of_int (points sc (js ''Risk/Impact'')
                                           + points sc (js ''Dependencies'')))))"
    unfolding riskDeps_def orZero_rubric by (simp only: jsAdd_int[OF two])
  have g: "jsGe pf (JNum (Finite (of_int a))) (Finite 40) = Some (40 \<le> a)"
    "jsGe pf (JNum (Finite (of_int a))) (Finite 30) = Some (30 \<le> a)"
    "jsGe pf (JNum (Finite (of_int a))) (Finite 15) = Some (15 \<le> a)" for a
    using jsGe_int[of pf a 40] jsGe_int[of pf a 30] jsGe_int[of pf a 15] by simp_all
  have n: "rubric sc \<noteq> JNull" by (simp add: rubric_def)
  have e: "numGe (Finite (of_int a)) (Finite 85) = (85 \<le> a)" for a :: int
    by simp
  show ?thesis
    unfolding calculateBadgeAndTotal_def Let_def ob b c r
    by (simp add: t g n e del: of_int_add mathRound.simps numMul.simps numDiv.simps)
qed

lemma labels_distinct:
  "distinct [visionary_thinker, feature_architect, clarity_champion, risk_wrangler]"
  by (simp add: visionary_thinker_def feature_architect_def clarity_champion_def
      risk_wrangler_def js_def)

lemmas labels = visionary_thinker_def feature_architect_def clarity_champion_def
  risk_wrangler_def

lemma fl_small: "fl 0 = Finite 0" "fl 80 = Finite 80"
  using fl_int[of 0] fl_int[of 80] by simp_all

text \<open>
  Claim C1. On a mapping of integer points (sizes adding up to at most \<open>2 ^ 40\<close>, so that
  every sum is exact) the total is the sum of all points, and the four badge rules are
  tried in the order Visionary Thinker (Benefit Hypothesis + Strategic alignment +
  Leading Indicators at least 40), Feature Architect (total at least 85), Clarity Champion
  (Title clarity + Description completeness + Scope clarity at least 30), Risk Wrangler
  (Risk/Impact + Dependencies at least 15), an absent criterion counting 0 and each match
  overwriting the badge: the badge is the label of the last rule that matches, and null
  when none does. On every other value of \<open>scores\<close> on which the scorer returns, the
  badge is again the label of the last of the four tests, in this order, that holds. With
  Risk/Impact 10 and Dependencies 10 and every other criterion 0
  (absent or present), the result is total 20 and the Risk Wrangler label.
\<close>

theorem badge_last_match_wins:
  assumes "(\<Sum>(k, n)\<leftarrow>sc. \<bar>n\<bar>) \<le> 2 ^ 40"
  shows "calculateBadgeAndTotal pf (rubric sc) =
           (let p = (\<lambda>k. case map_of sc (js k) of None \<Rightarrow> 0 | Some n \<Rightarrow> n);
                t = (\<Sum>(k, n)\<leftarrow>sc. n);
                matching = filter fst
                  [(40 \<le> p ''Benefit Hypothesis'' + p ''Strategic alignment''
                            + p ''Leading Indicators'',
                    js ''Visionary Thinker '' @ [55356, 57119]),
                   (85 \<le> t,
                    js ''Feature Architect '' @ [55358, 56800]),
                   (30 \<le> p ''Title clarity'' + p ''Description completeness''
                            + p ''Scope clarity'',
                    js ''Clarity Champion '' @ [55358, 56647]),
                   (15 \<le> p ''Risk/Impact'' + p ''Dependencies'',
                    js ''Risk Wrangler '' @ [9878, 65039])]
            in Some \<lparr>total = Finite (of_int t),
                     badge = (if matching = [] then None else Some (snd (last matching)))\<rparr>)
       \<and> (calculateBadgeAndTotal pf scores = Some r \<longrightarrow>
          (\<exists>b c rd b1 b3 b4.
             benefit pf scores = Some b \<and> jsGe pf b (Finite 40) = Some b1
             \<and> clarity pf scores = Some c \<and> jsGe pf c (Finite 30) = Some b3
             \<and> riskDeps pf scores = Some rd \<and> jsGe pf rd (Finite 15) = Some b4
             \<and> badge r =
                 (let matching = filter fst
                    [(b1, js ''Visionary Thinker '' @ [55356, 57119]),
                     (numGe (total r) (Finite 85), js ''Feature Architect '' @ [55358, 56800]),
                     (b3, js ''Clarity Champion '' @ [55358, 56647]),
                     (b4, js ''Risk Wrangler '' @ [9878, 65039])]
                  in if matching = [] then None else Some (snd (last matching)))))
       \<and> calculateBadgeAndTotal pf
           (rubric [(js ''Risk/Impact'', 10), (js ''Dependencies'', 10)])
           = Some \<lparr>total = Finite 20, badge = Some (js ''Risk Wrangler '' @ [9878, 65039])\<rparr>
       \<and> calculateBadgeAndTotal pf
           (rubric [(js ''Title clarity'', 0), (js ''Description completeness'', 0),
                    (js ''Benefit Hypothesis'', 0), (js ''Leading Indicators'', 0),
                    (js ''Strategic alignment'', 0), (js ''Risk/Impact'', 10),
                    (js ''Dependencies'', 10), (js ''Scope clarity'', 0)])
           = Some \<lparr>total = Finite 20, badge = Some (js ''Risk Wrangler '' @ [9878, 65039])\<rparr>"
proof (intro conjI)
  show "calculateBadgeAndTotal pf (rubric sc) =
           (let p = (\<lambda>k. case map_of sc (js k) of None \<Rightarrow> 0 | Some n \<Rightarrow> n);
                t = (\<Sum>(k, n)\<leftarrow>sc. n);
                matching = filter fst
                  [(40 \<le> p ''Benefit Hypothesis'' + p ''Strategic alignment''
                            + p ''Leading Indicators'',
                    js ''Visionary Thinker '' @ [55356, 57119]),
                   (85 \<le> t,
                    js ''Feature Architect '' @ [55358, 56800]),
                   (30 \<le> p ''Title clarity'' + p ''Description completeness''
                            + p ''Scope clarity'',
                    js ''Clarity Champion '' @ [55358, 56647]),
                   (15 \<le> p ''Risk/Impact'' + p ''Dependencies'',
                    js ''Risk Wrangler '' @ [9878, 65039])]
            in Some \<lparr>total = Finite (of_int t),
                     badge = (if matching = [] then None else Some (snd (last matching)))\<rparr>)"
    unfolding calculate_rubric[OF assms] Let_def points_def labels by simp
  show "calculateBadgeAndTotal pf scores = Some r \<longrightarrow>
          (\<exists>b c rd b1 b3 b4.
             benefit pf scores = Some b \<and> jsGe pf b (Finite 40) = Some b1
             \<and> clarity pf scores = Some c \<and> jsGe pf c (Finite 30) = Some b3
             \<and> riskDeps pf scores = Some rd \<and> jsGe pf rd (Finite 15) = Some b4
             \<and> badge r =
                 (let matching = filter fst
                    [(b1, js ''Visionary Thinker '' @ [55356, 57119]),
                     (numGe (total r) (Finite 85), js ''Feature Architect '' @ [55358, 56800]),
                     (b3, js ''Clarity Champion '' @ [55358, 56647]),
                     (b4, js ''Risk Wrangler '' @ [9878, 65039])]
                  in if matching = [] then None else Some (snd (last matching))))"
  proof
    assume "calculateBadgeAndTotal pf scores = Some r"
    from calculate_result[OF this] obtain b c rd b1 b3 b4
      where s: "benefit pf scores = Some b" "jsGe pf b (Finite 40) = Some b1"
        "clarity pf scores = Some c" "jsGe pf c (Finite 30) = Some b3"
        "riskDeps pf scores = Some rd" "jsGe pf rd (Finite 15) = Some b4"
        and bd: "badge r = (if b4 then Some risk_wrangler
                          else if b3 then Some clarity_champion
                          else if numGe (total r) (Finite 85) then Some feature_architect
                          else if b1 then Some visionary_thinker
                          else None)"
      by blast
    have "badge r =
                 (let matching = filter fst
                    [(b1, js ''Visionary Thinker '' @ [55356, 57119]),
                     (numGe (total r) (Finite 85), js ''Feature Architect '' @ [55358, 56800]),
                     (b3, js ''Clarity Champion '' @ [55358, 56647]),
                     (b4, js ''Risk Wrangler '' @ [9878, 65039])]
                  in if matching = [] then None else Some (snd (last matching)))"
      unfolding bd Let_def labels by simp
    with s show "\<exists>b c rd b1 b3 b4.
             benefit pf scores = Some b \<and> jsGe pf b (Finite 40) = Some b1
             \<and> clarity pf scores = Some c \<and> jsGe pf c (Finite 30) = Some b3
             \<and> riskDeps pf scores = Some rd \<and> jsGe pf rd (Finite 15) = Some b4
             \<and> badge r =
                 (let matching = filter fst
                    [(b1, js ''Visionary Thinker '' @ [55356, 57119]),
                     (numGe (total r) (Finite 85), js ''Feature Architect '' @ [55358, 56800]),
                     (b3, js ''Clarity Champion '' @ [55358, 56647]),
                     (b4, js ''Risk Wrangler '' @ [9878, 65039])]
                  in if matching = [] then None else Some (snd (last matching)))"
      by blast
  qed
  show "calculateBadgeAndTotal pf
           (rubric [(js ''Risk/Impact'', 10), (js ''Dependencies'', 10)])
           = Some \<lparr>total = Finite 20, badge = Some (js ''Risk Wrangler '' @ [9878, 65039])\<rparr>"
    by (subst calculate_rubric) (simp_all add: points_def labels js_def)
  show "calculateBadgeAndTotal pf
           (rubric [(js ''Title clarity'', 0), (js ''Description completeness'', 0),
                    (js ''Benefit Hypothesis'', 0), (js ''Leading Indicators'', 0),
                    (js ''Strategic alignment'', 0), (js ''Risk/Impact'', 10),
                    (js ''Dependencies'', 10), (js ''Scope clarity'', 0)])
           = Some \<lparr>total = Finite 20, badge = Some (js ''Risk Wrangler '' @ [9878, 65039])\<rparr>"
    by (subst calculate_rubric) (simp_all add: points_def labels js_def)
qed

theorem badge_last_match_wins_witness:
  "calculateBadgeAndTotal plainPlatform
     (rubric [(js ''Benefit Hypothesis'', 20), (js ''Strategic alignment'', 10),
              (js ''Leading Indicators'', 15)])
     = Some \<lparr>total = Finite 45, badge = Some (js ''Visionary Thinker '' @ [55356, 57119])\<rparr>
   \<and> calculateBadgeAndTotal plainPlatform
       (rubric [(js ''Title clarity'', 10), (js ''Description completeness'', 15),
                (js ''Benefit Hypothesis'', 20), (js ''Leading Indicators'', 15),
                (js ''Strategic alignment'', 10), (js ''Risk/Impact'', 10),
                (js ''Dependencies'', 4), (js ''Scope clarity'', 4)])
       = Some \<lparr>total = Finite 88, badge = Some (js ''Feature Architect '' @ [55358, 56800])\<rparr>
   \<and> calculateBadgeAndTotal plainPlatform
       (rubric [(js ''Title clarity'', 10), (js ''Description completeness'', 15),
                (js ''Benefit Hypothesis'', 20), (js ''Leading Indicators'', 15),
                (js ''Strategic alignment'', 10), (js ''Risk/Impact'', 10),
                (js ''Dependencies'', 4), (js ''Scope clarity'', 10)])
       = Some \<lparr>total = Finite 94, badge = Some (js ''Clarity Champion '' @ [55358, 56647])\<rparr>
   \<and> calculateBadgeAndTotal plainPlatform
       (rubric [(js ''Title clarity'', 10), (js ''Description completeness'', 15),
                (js ''Benefit Hypothesis'', 20), (js ''Leading Indicators'', 15),
                (js ''Strategic alignment'', 10), (js ''Risk/Impact'', 10),
                (js ''Dependencies'', 10), (js ''Scope clarity'', 10)])
       = Some \<lparr>total = Finite 100, badge = Some (js ''Risk Wrangler '' @ [9878, 65039])\<rparr>
   \<and> calculateBadgeAndTotal plainPlatform
       (rubric [(js ''Benefit Hypothesis'', 20), (js ''Title clarity'', 10)])
       = Some \<lparr>total = Finite 30, badge = None\<rparr>"
  using
    badge_last_match_wins[of
      "[(js ''Benefit Hypothesis'', 20), (js ''Strategic alignment'', 10),
        (js ''Leading Indicators'', 15)]" plainPlatform]
    badge_last_match_wins[of
      "[(js ''Title clarity'', 10), (js ''Description completeness'', 15),
        (js ''Benefit Hypothesis'', 20), (js ''Leading Indicators'', 15),
        (js ''Strategic alignment'', 10), (js ''Risk/Impact'', 10),
        (js ''Dependencies'', 4), (js ''Scope clarity'', 4)]" plainPlatform]
    badge_last_match_wins[of
      "[(js ''Title clarity'', 10), (js ''Description completeness'', 15),
        (js ''Benefit Hypothesis'', 20), (js ''Leading Indicators'', 15),
        (js ''Strategic alignment'', 10), (js ''Risk/Impact'', 10),
        (js ''Dependencies'', 4), (js ''Scope clarity'', 10)]" plainPlatform]
    badge_last_match_wins[of
      "[(js ''Title clarity'', 10), (js ''Description completeness'', 15),
        (js ''Benefit Hypothesis'', 20), (js ''Leading Indicators'', 15),
        (js ''Strategic alignment'', 10), (js ''Risk/Impact'', 10),
        (js ''Dependencies'', 10), (js ''Scope clarity'', 10)]" plainPlatform]
    badge_last_match_wins[of
      "[(js ''Benefit Hypothesis'', 20), (js ''Title clarity'', 10)]" plainPlatform]
  by (simp add: Let_def js_def)

text \<open>
  Claim C2 fails as stated: the mapping with every criterion at its maximum has the three
  clarity values of the claim and total 100, and its badge is Risk Wrangler.
\<close>

theorem full_marks_badge_counterexample:
  "field (rubric fullMarks) (js ''Title clarity'') = Some (JNum (Finite 10))
   \<and> field (rubric fullMarks) (js ''Description completeness'') = Some (JNum (Finite 15))
   \<and> field (rubric fullMarks) (js ''Scope clarity'') = Some (JNum (Finite 10))
   \<and> calculateBadgeAndTotal plainPlatform (rubric fullMarks)
       = Some \<lparr>total = Finite 100, badge = Some risk_wrangler\<rparr>
   \<and> risk_wrangler \<noteq> feature_architect"
proof -
  have "calculateBadgeAndTotal plainPlatform (rubric fullMarks)
          = Some \<lparr>total = Finite 100, badge = Some risk_wrangler\<rparr>"
    by (subst calculate_rubric) (simp_all add: points_def fullMarks_def js_def)
  moreover have "risk_wrangler \<noteq> feature_architect"
    using labels_distinct by auto
  ultimately show ?thesis
    by (simp add: field_rubric fullMarks_def js_def)
qed

lemma orZero_number [simp]: "orZero (Some (JNum (Finite x))) = JNum (Finite x)"
  by (simp add: orZero_def)

text \<open>
  Claim C2, as the code has it. A mapping with Title clarity 10, Description completeness 15
  and Scope clarity 10 has a clarity sub-total of 35, so the Clarity Champion rule matches
  after the Feature Architect rule and overwrites it: with total 100 the badge is Risk
  Wrangler when Risk/Impact + Dependencies is at least 15 and Clarity Champion otherwise,
  never Feature Architect. Risk/Impact + Dependencies is the sum that \<open>riskDeps\<close>
  computes; for integer points \<open>a\<close> and \<open>b\<close> (0 for an absent criterion) it is \<open>a + b\<close>.
\<close>

theorem full_clarity_badge:
  assumes "field scores (js ''Title clarity'') = Some (JNum (Finite 10))"
    and "field scores (js ''Description completeness'') = Some (JNum (Finite 15))"
    and "field scores (js ''Scope clarity'') = Some (JNum (Finite 10))"
    and "calculateBadgeAndTotal pf scores = Some r"
    and "total r = Finite 100"
  shows "(\<exists>rd b4. riskDeps pf scores = Some rd \<and> jsGe pf rd (Finite 15) = Some b4
            \<and> badge r = Some (if b4 then risk_wrangler else clarity_champion))
       \<and> badge r \<noteq> Some feature_architect
       \<and> (orZero (field scores (js ''Risk/Impact'')) = JNum (Finite (of_int a))
          \<and> orZero (field scores (js ''Dependencies'')) = JNum (Finite (of_int b))
          \<and> \<bar>a + b\<bar> < 2 ^ 53
          \<longrightarrow> badge r = Some (if 15 \<le> a + b then risk_wrangler else clarity_champion))"
proof -
  from calculate_result[OF assms(4)] obtain c rd b1 b3 b4
    where c: "clarity pf scores = Some c" and rd: "riskDeps pf scores = Some rd"
      and b3: "jsGe pf c (Finite 30) = Some b3" and b4: "jsGe pf rd (Finite 15) = Some b4"
      and bd: "badge r = (if b4 then Some risk_wrangler
                          else if b3 then Some clarity_champion
                          else if numGe (total r) (Finite 85) then Some feature_architect
                          else if b1 then Some visionary_thinker
                          else None)"
    by blast
  have "clarity pf scores = Some (JNum (Finite 35))"
    unfolding clarity_def assms(1-3)
    using jsAdd_int[of 10 15 pf] jsAdd_int[of 25 10 pf] by simp
  with c b3 have "b3" by (auto simp add: jsGe_def)
  with bd have badge: "badge r = Some (if b4 then risk_wrangler else clarity_champion)"
    by simp
  have d: "risk_wrangler \<noteq> feature_architect" "clarity_champion \<noteq> feature_architect"
    using labels_distinct by auto
  have "badge r = Some (if 15 \<le> a + b then risk_wrangler else clarity_champion)"
    if h: "orZero (field scores (js ''Risk/Impact'')) = JNum (Finite (of_int a))
          \<and> orZero (field scores (js ''Dependencies'')) = JNum (Finite (of_int b))
          \<and> \<bar>a + b\<bar> < 2 ^ 53"
  proof -
    from h have "riskDeps pf scores = Some (JNum (Finite (of_int (a + b))))"
      unfolding riskDeps_def by (simp only: jsAdd_int)
    with rd b4 jsGe_int[of pf "a + b" 15] have "b4 = (15 \<le> a + b)" by simp
    with badge show ?thesis by simp
  qed
  with rd b4 badge d show ?thesis by auto
qed

theorem full_clarity_badge_witness:
  "calculateBadgeAndTotal plainPlatform (rubric fullMarks)
     = Some \<lparr>total = Finite 100, badge = Some risk_wrangler\<rparr>
   \<and> badge \<lparr>total = Finite 100, badge = Some risk_wrangler\<rparr>
       = Some (if (15::int) \<le> 10 + 10 then risk_wrangler else clarity_champion)
   \<and> badge \<lparr>total = Finite 100, badge = Some risk_wrangler\<rparr> \<noteq> Some feature_architect"
proof -
  have c: "calculateBadgeAndTotal plainPlatform (rubric fullMarks)
          = Some \<lparr>total = Finite 100, badge = Some risk_wrangler\<rparr>"
    by (subst calculate_rubric) (simp_all add: points_def fullMarks_def js_def)
  have f: "field (rubric fullMarks) (js ''Title clarity'') = Some (JNum (Finite 10))"
    "field (rubric fullMarks) (js ''Description completeness'') = Some (JNum (Finite 15))"
    "field (rubric fullMarks) (js ''Scope clarity'') = Some (JNum (Finite 10))"
    "orZero (field (rubric fullMarks) (js ''Risk/Impact'')) = JNum (Finite (of_int 10))"
    "orZero (field (rubric fullMarks) (js ''Dependencies'')) = JNum (Finite (of_int 10))"
    by (simp_all add: field_rubric fullMarks_def js_def)
  from full_clarity_badge[where a = 10 and b = 10, OF f(1-3) c] f(4,5) c
  show ?thesis by simp
qed

lemma field_insert:
  "k' \<noteq> k \<Longrightarrow> field (JObj (ps @ (k, x) # qs)) k' = field (JObj (ps @ qs)) k'"
  by (induction ps) (simp_all add: field_def getProp_def)

lemma subtotals_insert:
  assumes "k \<notin> set criteria"
  shows "benefit pf (JObj (ps @ (k, x) # qs)) = benefit pf (JObj (ps @ qs))"
    and "clarity pf (JObj (ps @ (k, x) # qs)) = clarity pf (JObj (ps @ qs))"
    and "riskDeps pf (JObj (ps @ (k, x) # qs)) = riskDeps pf (JObj (ps @ qs))"
proof -
  have "field (JObj (ps @ (k, x) # qs)) c = field (JObj (ps @ qs)) c" if "c \<in> set criteria" for c
    using that assms by (intro field_insert) auto
  then show "benefit pf (JObj (ps @ (k, x) # qs)) = benefit pf (JObj (ps @ qs))"
    and "clarity pf (JObj (ps @ (k, x) # qs)) = clarity pf (JObj (ps @ qs))"
    and "riskDeps pf (JObj (ps @ (k, x) # qs)) = riskDeps pf (JObj (ps @ qs))"
    by (simp_all add: criteria_def benefit_def clarity_def riskDeps_def)
qed

lemma points_insert: "k' \<noteq> k \<Longrightarrow> points (xs @ (k, v) # ys) k' = points (xs @ ys) k'"
  by (induction xs) (simp_all add: points_def)

lemma badge_with_extra_key:
  assumes "k \<notin> set criteria"
    and "calculateBadgeAndTotal pf (JObj (ps @ (k, x) # qs)) = Some r'"
    and "calculateBadgeAndTotal pf (JObj (ps @ qs)) = Some r"
    and "badge r' \<noteq> badge r"
  shows "numGe (total r') (Finite 85) \<noteq> numGe (total r) (Finite 85)
         \<and> (if numGe (total r') (Finite 85) then badge r' = Some feature_architect
            else badge r = Some feature_architect)"
proof -
  from calculate_result[OF assms(2)] obtain b' c' rd' b1' b3' b4'
    where s': "benefit pf (JObj (ps @ (k, x) # qs)) = Some b'"
      "clarity pf (JObj (ps @ (k, x) # qs)) = Some c'"
      "riskDeps pf (JObj (ps @ (k, x) # qs)) = Some rd'"
      and g': "jsGe pf b' (Finite 40) = Some b1'" "jsGe pf c' (Finite 30) = Some b3'"
      "jsGe pf rd' (Finite 15) = Some b4'"
      and bd': "badge r' = (if b4' then Some risk_wrangler
                        else if b3' then Some clarity_champion
                        else if numGe (total r') (Finite 85) then Some feature_architect
                        else if b1' then Some visionary_thinker
                        else None)"
    by blast
  from calculate_result[OF assms(3)] obtain b c rd b1 b3 b4
    where s: "benefit pf (JObj (ps @ qs)) = Some b" "clarity pf (JObj (ps @ qs)) = Some c"
      "riskDeps pf (JObj (ps @ qs)) = Some rd"
      and g: "jsGe pf b (Finite 40) = Some b1" "jsGe pf c (Finite 30) = Some b3"
      "jsGe pf rd (Finite 15) = Some b4"
      and bd: "badge r = (if b4 then Some risk_wrangler
                        else if b3 then Some clarity_champion
                        else if numGe (total r) (Finite 85) then Some feature_architect
                        else if b1 then Some visionary_thinker
                        else None)"
    by blast
  from s s' subtotals_insert[OF assms(1), of pf ps x qs] have "b' = b" "c' = c" "rd' = rd"
    by simp_all
  with g g' have e: "b1' = b1" "b3' = b3" "b4' = b4" by simp_all
  from assms(4) show ?thesis
    unfolding bd bd' e by (simp split: if_splits)
qed

text \<open>
  Claim C10 fails as stated: an extra key with a positive value need not make the total
  larger. The total is rounded to an integer, so a bonus of a quarter point leaves the
  total of a mapping with 80 points at 80.
\<close>

theorem quarter_point_bonus_counterexample:
  "js ''Bonus'' \<notin> set criteria
   \<and> (0::rat) < 1 / 4
   \<and> calculateBadgeAndTotal plainPlatform
       (JObj [(js ''Benefit Hypothesis'', JNum (Finite 80))])
       = Some \<lparr>total = Finite 80, badge = Some visionary_thinker\<rparr>
   \<and> calculateBadgeAndTotal plainPlatform
       (JObj [(js ''Benefit Hypothesis'', JNum (Finite 80)),
              (js ''Bonus'', JNum (Finite (1 / 4)))])
       = Some \<lparr>total = Finite 80, badge = Some visionary_thinker\<rparr>"
proof -
  from total_near[of "321 / 4" 80] obtain y where y: "fl (321 / 4) = Finite y"
    and t: "mathRound (numMul (numDiv (Finite y) 100) 100) = Finite 80"
    by auto
  have t0: "mathRound (numMul (numDiv (Finite 80) 100) 100) = Finite 80"
    using total_int[of 80] by simp
  have a: "jsAdd plainPlatform (JNum (Finite 0)) (JNum (Finite 80)) = Some (JNum (Finite 80))"
    "jsAdd plainPlatform (JNum (Finite 80)) (JNum (Finite 0)) = Some (JNum (Finite 80))"
    "jsAdd plainPlatform (JNum (Finite 0)) (JNum (Finite 0)) = Some (JNum (Finite 0))"
    "jsAdd plainPlatform (JNum (Finite 80)) (JNum (Finite (1 / 4))) = Some (JNum (Finite y))"
    by (simp_all add: jsAdd_def fl_small y)
  have f: "field (JObj [(js ''Benefit Hypothesis'', JNum (Finite 80))]) k
             = (if k = js ''Benefit Hypothesis'' then Some (JNum (Finite 80)) else None)"
    "field (JObj [(js ''Benefit Hypothesis'', JNum (Finite 80)),
                  (js ''Bonus'', JNum (Finite (1 / 4)))]) k
       = (if k = js ''Benefit Hypothesis'' then Some (JNum (Finite 80))
          else if k = js ''Bonus'' then Some (JNum (Finite (1 / 4))) else None)" for k
    by (simp_all add: field_def getProp_def)
  have z: "orZero None = JNum (Finite 0)" by (simp add: orZero_def)
  have n: "js ''Strategic alignment'' \<noteq> js ''Benefit Hypothesis''"
    "js ''Leading Indicators'' \<noteq> js ''Benefit Hypothesis''"
    "js ''Title clarity'' \<noteq> js ''Benefit Hypothesis''"
    "js ''Description completeness'' \<noteq> js ''Benefit Hypothesis''"
    "js ''Scope clarity'' \<noteq> js ''Benefit Hypothesis''"
    "js ''Risk/Impact'' \<noteq> js ''Benefit Hypothesis''"
    "js ''Dependencies'' \<noteq> js ''Benefit Hypothesis''"
    "js ''Strategic alignment'' \<noteq> js ''Bonus''"
    "js ''Leading Indicators'' \<noteq> js ''Bonus''"
    "js ''Title clarity'' \<noteq> js ''Bonus''"
    "js ''Description completeness'' \<noteq> js ''Bonus''"
    "js ''Scope clarity'' \<noteq> js ''Bonus''"
    "js ''Risk/Impact'' \<noteq> js ''Bonus''"
    "js ''Dependencies'' \<noteq> js ''Bonus''"
    by (simp_all add: js_def)
  have c0: "calculateBadgeAndTotal plainPlatform
       (JObj [(js ''Benefit Hypothesis'', JNum (Finite 80))])
       = Some \<lparr>total = Finite 80, badge = Some visionary_thinker\<rparr>"
    unfolding calculateBadgeAndTotal_def benefit_def clarity_def riskDeps_def Let_def f
    by (simp add: a z n t0 jsGe_def del: mathRound.simps numMul.simps numDiv.simps)
  have c1: "calculateBadgeAndTotal plainPlatform
       (JObj [(js ''Benefit Hypothesis'', JNum (Finite 80)),
              (js ''Bonus'', JNum (Finite (1 / 4)))])
       = Some \<lparr>total = Finite 80, badge = Some visionary_thinker\<rparr>"
    unfolding calculateBadgeAndTotal_def benefit_def clarity_def riskDeps_def Let_def f
    by (simp add: a z n t jsGe_def del: mathRound.simps numMul.simps numDiv.simps)
  have "js ''Bonus'' \<notin> set criteria"
    by (simp add: criteria_def js_def)
  with c0 c1 show ?thesis by simp
qed

text \<open>
  Claim C10, as the code has it. The total adds the value of every key of the mapping,
  also of a key that is none of the eight criterion names. For integer points (sizes
  adding up to at most \<open>2 ^ 40\<close>) such a key with a positive value \<open>v\<close> makes the total
  larger by exactly \<open>v\<close>, and the total can pass 100 (105 for full marks and a bonus of 5).
  For any value of the extra key, the three badge sub-totals read the named criteria only
  and do not change; if the badge changes at all, the test \<open>total >= 85\<close> has changed and
  the badge of the mapping that passes it is Feature Architect.
\<close>

theorem extra_key_counts_in_total_only:
  assumes "k \<notin> set criteria"
  shows "benefit pf (JObj (ps @ (k, x) # qs)) = benefit pf (JObj (ps @ qs))
       \<and> clarity pf (JObj (ps @ (k, x) # qs)) = clarity pf (JObj (ps @ qs))
       \<and> riskDeps pf (JObj (ps @ (k, x) # qs)) = riskDeps pf (JObj (ps @ qs))
       \<and> (calculateBadgeAndTotal pf (JObj (ps @ (k, x) # qs)) = Some r'
          \<and> calculateBadgeAndTotal pf (JObj (ps @ qs)) = Some r
          \<and> badge r' \<noteq> badge r
          \<longrightarrow> numGe (total r') (Finite 85) \<noteq> numGe (total r) (Finite 85)
            \<and> (if numGe (total r') (Finite 85) then badge r' = Some feature_architect
               else badge r = Some feature_architect))
       \<and> (0 < v \<and> (\<Sum>(k, n)\<leftarrow>xs @ ys. \<bar>n\<bar>) + v \<le> 2 ^ 40
          \<longrightarrow> (\<exists>b b'.
                 calculateBadgeAndTotal pf (rubric (xs @ ys))
                   = Some \<lparr>total = Finite (of_int (\<Sum>(k, n)\<leftarrow>xs @ ys. n)), badge = b\<rparr>
                 \<and> calculateBadgeAndTotal pf (rubric (xs @ (k, v) # ys))
                   = Some \<lparr>total = Finite (of_int ((\<Sum>(k, n)\<leftarrow>xs @ ys. n) + v)), badge = b'\<rparr>
                 \<and> (\<Sum>(k, n)\<leftarrow>xs @ ys. n) < (\<Sum>(k, n)\<leftarrow>xs @ ys. n) + v
                 \<and> (b' \<noteq> b \<longrightarrow> (\<Sum>(k, n)\<leftarrow>xs @ ys. n) < 85
                                \<and> 85 \<le> (\<Sum>(k, n)\<leftarrow>xs @ ys. n) + v
                                \<and> b' = Some feature_architect)))
       \<and> calculateBadgeAndTotal pf (rubric (fullMarks @ [(js ''Bonus'', 5)]))
           = Some \<lparr>total = Finite 105, badge = Some risk_wrangler\<rparr>"
proof -
  note s = subtotals_insert[OF assms, of pf ps x qs]
  have g: "calculateBadgeAndTotal pf (JObj (ps @ (k, x) # qs)) = Some r'
          \<and> calculateBadgeAndTotal pf (JObj (ps @ qs)) = Some r
          \<and> badge r' \<noteq> badge r
          \<longrightarrow> numGe (total r') (Finite 85) \<noteq> numGe (total r) (Finite 85)
            \<and> (if numGe (total r') (Finite 85) then badge r' = Some feature_architect
               else badge r = Some feature_architect)"
    using badge_with_extra_key[OF assms] by blast
  have i: "\<exists>b b'.
                 calculateBadgeAndTotal pf (rubric (xs @ ys))
                   = Some \<lparr>total = Finite (of_int (\<Sum>(k, n)\<leftarrow>xs @ ys. n)), badge = b\<rparr>
                 \<and> calculateBadgeAndTotal pf (rubric (xs @ (k, v) # ys))
                   = Some \<lparr>total = Finite (of_int ((\<Sum>(k, n)\<leftarrow>xs @ ys. n) + v)), badge = b'\<rparr>
                 \<and> (\<Sum>(k, n)\<leftarrow>xs @ ys. n) < (\<Sum>(k, n)\<leftarrow>xs @ ys. n) + v
                 \<and> (b' \<noteq> b \<longrightarrow> (\<Sum>(k, n)\<leftarrow>xs @ ys. n) < 85
                                \<and> 85 \<le> (\<Sum>(k, n)\<leftarrow>xs @ ys. n) + v
                                \<and> b' = Some feature_architect)"
    if h: "0 < v \<and> (\<Sum>(k, n)\<leftarrow>xs @ ys. \<bar>n\<bar>) + v \<le> 2 ^ 40"
  proof -
    let ?t = "(\<Sum>(k, n)\<leftarrow>xs @ ys. n)"
    from h have v: "0 < v" and b1: "(\<Sum>(k, n)\<leftarrow>xs @ ys. \<bar>n\<bar>) \<le> 2 ^ 40"
      and b2: "(\<Sum>(k, n)\<leftarrow>xs @ (k, v) # ys. \<bar>n\<bar>) \<le> 2 ^ 40"
      by simp_all
    have t: "(\<Sum>(k, n)\<leftarrow>xs @ (k, v) # ys. n) = ?t + v" by simp
    have p: "points (xs @ (k, v) # ys) c = points (xs @ ys) c" if "c \<in> set criteria" for c
      using that assms by (intro points_insert) auto
    have p': "points (xs @ (k, v) # ys) (js ''Risk/Impact'') = points (xs @ ys) (js ''Risk/Impact'')"
      "points (xs @ (k, v) # ys) (js ''Dependencies'') = points (xs @ ys) (js ''Dependencies'')"
      "points (xs @ (k, v) # ys) (js ''Title clarity'') = points (xs @ ys) (js ''Title clarity'')"
      "points (xs @ (k, v) # ys) (js ''Description completeness'')
         = points (xs @ ys) (js ''Description completeness'')"
      "points (xs @ (k, v) # ys) (js ''Scope clarity'') = points (xs @ ys) (js ''Scope clarity'')"
      "points (xs @ (k, v) # ys) (js ''Benefit Hypothesis'')
         = points (xs @ ys) (js ''Benefit Hypothesis'')"
      "points (xs @ (k, v) # ys) (js ''Strategic alignment'')
         = points (xs @ ys) (js ''Strategic alignment'')"
      "points (xs @ (k, v) # ys) (js ''Leading Indicators'')
         = points (xs @ ys) (js ''Leading Indicators'')"
      by (rule p, simp add: criteria_def)+
    have d: "Some risk_wrangler \<noteq> Some feature_architect"
      "Some clarity_champion \<noteq> Some feature_architect"
      "Some visionary_thinker \<noteq> Some feature_architect"
      using labels_distinct by auto
    show ?thesis
      unfolding calculate_rubric[OF b1] calculate_rubric[OF b2] t p'
      using v d by (simp del: of_int_add split: if_splits)
  qed
  have e: "calculateBadgeAndTotal pf (rubric (fullMarks @ [(js ''Bonus'', 5)]))
           = Some \<lparr>total = Finite 105, badge = Some risk_wrangler\<rparr>"
    by (subst calculate_rubric) (simp_all add: points_def fullMarks_def js_def)
  from s g i e show ?thesis by blast
qed

theorem extra_key_counts_in_total_only_witness:
  "js ''Bonus'' \<notin> set criteria
   \<and> calculateBadgeAndTotal plainPlatform (rubric ([(js ''Benefit Hypothesis'', 80)] @ []))
       = Some \<lparr>total = Finite 80, badge = Some visionary_thinker\<rparr>
   \<and> calculateBadgeAndTotal plainPlatform
       (rubric ([(js ''Benefit Hypothesis'', 80)] @ (js ''Bonus'', 7) # []))
       = Some \<lparr>total = Finite 87, badge = Some feature_architect\<rparr>
   \<and> benefit plainPlatform (JObj ([(js ''Benefit Hypothesis'', JNum (Finite 80))]
                                    @ (js ''Bonus'', JNum (Finite 7)) # []))
       = benefit plainPlatform (JObj ([(js ''Benefit Hypothesis'', JNum (Finite 80))] @ []))"
proof -
  have k: "js ''Bonus'' \<notin> set criteria"
    by (simp add: criteria_def js_def)
  have c: "calculateBadgeAndTotal plainPlatform (rubric ([(js ''Benefit Hypothesis'', 80)] @ []))
       = Some \<lparr>total = Finite 80, badge = Some visionary_thinker\<rparr>"
    "calculateBadgeAndTotal plainPlatform
       (rubric ([(js ''Benefit Hypothesis'', 80)] @ (js ''Bonus'', 7) # []))
       = Some \<lparr>total = Finite 87, badge = Some feature_architect\<rparr>"
    by (subst calculate_rubric; simp add: points_def js_def)+
  from extra_key_counts_in_total_only[OF k, where pf = plainPlatform
      and ps = "[(js ''Benefit Hypothesis'', JNum (Finite 80))]" and x = "JNum (Finite 7)"
      and qs = "[]" and v = 7 and xs = "[(js ''Benefit Hypothesis'', 80)]" and ys = "[]"
      and r' = "\<lparr>total = Finite 87, badge = Some feature_architect\<rparr>"
      and r = "\<lparr>total = Finite 80, badge = Some visionary_thinker\<rparr>"]
  have "benefit plainPlatform (JObj ([(js ''Benefit Hypothesis'', JNum (Finite 80))]
                                    @ (js ''Bonus'', JNum (Finite 7)) # []))
       = benefit plainPlatform (JObj ([(js ''Benefit Hypothesis'', JNum (Finite 80))] @ []))"
    by (rule conjunct1)
  with k c show ?thesis by simp
qed

section \<open>The resilient completion client\<close>

lemma calls_bound_from:
  "calls (snd (chatWithRetry_from up p retries b attempt w))
     \<le> calls w + (retries + 1 - attempt)"
proof (induction up p retries b attempt w rule: chatWithRetry_from.induct)
  case (1 up p retries b attempt w)
  show ?case
  proof (cases "attempt \<le> retries")
    case False
    then show ?thesis
      by (simp add: chatWithRetry_from.simps[of up p retries b attempt w])
  next
    case le: True
    show ?thesis
    proof (cases "up p (calls w)")
      case (Resolved r)
      with le show ?thesis
        by (simp add: chatWithRetry_from.simps[of up p retries b attempt w])
    next
      case (Rejected err)
      show ?thesis
      proof (cases "\<not> str_includes (errorText err) billingPhrase
                     \<and> status err = Some 429 \<and> attempt < retries")
        case True
        let ?w = "w\<lparr>calls := calls w + 1, delays := delays w @ [b * 2 ^ attempt]\<rparr>"
        from le Rejected True
        have step: "chatWithRetry_from up p retries b attempt w
                      = chatWithRetry_from up p retries b (attempt + 1) ?w"
          by (simp add: chatWithRetry_from.simps[of up p retries b attempt w])
        from "1.IH"[of err] le Rejected True
        have "calls (snd (chatWithRetry_from up p retries b (attempt + 1) ?w))
                \<le> calls ?w + (retries + 1 - (attempt + 1))"
          by simp
        with True show ?thesis
          unfolding step by auto
      next
        case False
        with le Rejected show ?thesis
          by (auto simp add: chatWithRetry_from.simps[of up p retries b attempt w])
      qed
    qed
  qed
qed

lemma all_rate_limited_from:
  assumes H: "\<And>n. \<exists>e. up p n = Rejected e \<and> status e = Some 429
                 \<and> \<not> str_includes (errorText e) billingPhrase"
  shows "attempt \<le> retries \<Longrightarrow>
         \<exists>e. up p (calls w + (retries - attempt)) = Rejected e
           \<and> chatWithRetry_from up p retries b attempt w =
               (Thrown e, w\<lparr>calls := calls w + (retries - attempt) + 1,
                             delays := delays w @ map (\<lambda>n. b * 2 ^ n) [attempt..<retries]\<rparr>)"
proof (induction "retries - attempt" arbitrary: attempt w)
  case 0
  then have eq: "attempt = retries" by simp
  from H obtain e where e: "up p (calls w) = Rejected e" "status e = Some 429"
    "\<not> str_includes (errorText e) billingPhrase" by blast
  show ?case
    using e eq by (simp add: chatWithRetry_from.simps[of up p retries b retries w])
next
  case (Suc d)
  then have lt: "attempt < retries" and d: "d = retries - (attempt + 1)" by simp_all
  from H obtain e where e: "up p (calls w) = Rejected e" "status e = Some 429"
    "\<not> str_includes (errorText e) billingPhrase" by blast
  let ?w = "w\<lparr>calls := calls w + 1, delays := delays w @ [b * 2 ^ attempt]\<rparr>"
  have step: "chatWithRetry_from up p retries b attempt w
                = chatWithRetry_from up p retries b (attempt + 1) ?w"
    using e lt by (simp add: chatWithRetry_from.simps[of up p retries b attempt w])
  from Suc.hyps(1)[OF d, of ?w] lt
  obtain e' where e': "up p (calls ?w + (retries - (attempt + 1))) = Rejected e'"
    "chatWithRetry_from up p retries b (attempt + 1) ?w =
       (Thrown e', ?w\<lparr>calls := calls ?w + (retries - (attempt + 1)) + 1,
                      delays := delays ?w @ map (\<lambda>n. b * 2 ^ n) [attempt + 1..<retries]\<rparr>)"
    by auto
  have idx: "calls ?w + (retries - (attempt + 1)) = calls w + (retries - attempt)"
    using lt by simp
  have dl: "delays ?w @ map (\<lambda>n. b * 2 ^ n) [attempt + 1..<retries]
              = delays w @ map (\<lambda>n. b * 2 ^ n) [attempt..<retries]"
    using lt by (simp add: upt_conv_Cons)
  show ?case
    using e' step idx dl lt by auto
qed

lemma not_billing: "\<not> str_includes (errorText tooManyRequests) billingPhrase"
  by (simp add: tooManyRequests_def errorText_def billingPhrase_def js_def startsWith_def)

lemma is_billing: "str_includes (errorText quotaExceeded) billingPhrase"
  by (simp add: quotaExceeded_def errorText_def billingPhrase_def js_def startsWith_def)

lemma quota_rejection_stops:
  assumes "up p (calls w) = Rejected e" and "str_includes (errorText e) billingPhrase"
  shows "chatWithRetry up p retries b w = (Thrown billingError, w\<lparr>calls := calls w + 1\<rparr>)"
  using assms by (simp add: chatWithRetry_def chatWithRetry_from.simps[of up p retries b 0 w])

text \<open>
  Claim C3 fails as stated: an upstream service that rejects every call with status 429 and
  the message of an exhausted quota is called once, not four times, because the test of
  the quota phrase comes before the test of the status.
\<close>

theorem quota_with_status_429_counterexample:
  "alwaysQuota (requestPayload []) 0 = Rejected quotaExceeded
   \<and> alwaysQuota (requestPayload []) 1 = Rejected quotaExceeded
   \<and> alwaysQuota (requestPayload []) 2 = Rejected quotaExceeded
   \<and> alwaysQuota (requestPayload []) 3 = Rejected quotaExceeded
   \<and> status quotaExceeded = Some 429
   \<and> calls (snd (chatWithRetry alwaysQuota (requestPayload []) 3 800 idle)) = 1
   \<and> delays (snd (chatWithRetry alwaysQuota (requestPayload []) 3 800 idle)) = []"
  using quota_rejection_stops[of alwaysQuota "requestPayload []" idle quotaExceeded 3 800]
    is_billing
  by (simp add: alwaysQuota_def idle_def) (simp add: quotaExceeded_def)

text \<open>
  Claim C3, as the code has it. When every upstream call is rejected with status 429 and a
  message without the quota phrase, \<open>chatWithRetry\<close> with 3 retries and a base delay of
  800 ms makes exactly 4 calls, waits 800, 1600 and 3200 ms between them and throws the
  error of the last call unchanged. For any number of retries and base delay it makes
  \<open>retries + 1\<close> calls and waits \<open>baseDelayMs * 2 ^ n\<close> before retry \<open>n + 1\<close>. Whatever
  the upstream service does, it makes at most \<open>retries + 1\<close> calls.
\<close>

theorem rate_limited_retries:
  assumes "\<forall>n. \<exists>e. up p n = Rejected e \<and> status e = Some 429
                 \<and> \<not> str_includes (errorText e) billingPhrase"
  shows "(\<exists>e. up p (calls w + 3) = Rejected e
            \<and> chatWithRetry up p 3 800 w
                = (Thrown e, w\<lparr>calls := calls w + 4, delays := delays w @ [800, 1600, 3200]\<rparr>))
       \<and> (\<exists>e. up p (calls w + retries) = Rejected e
            \<and> chatWithRetry up p retries b w
                = (Thrown e, w\<lparr>calls := calls w + retries + 1,
                              delays := delays w @ map (\<lambda>n. b * 2 ^ n) [0..<retries]\<rparr>))
       \<and> calls (snd (chatWithRetry other q retries b w)) \<le> calls w + (retries + 1)"
proof -
  from assms have H: "\<And>n. \<exists>e. up p n = Rejected e \<and> status e = Some 429
                 \<and> \<not> str_includes (errorText e) billingPhrase" by blast
  have gen: "\<exists>e. up p (calls w + r) = Rejected e
            \<and> chatWithRetry up p r c w
                = (Thrown e, w\<lparr>calls := calls w + r + 1,
                              delays := delays w @ map (\<lambda>n. c * 2 ^ n) [0..<r]\<rparr>)" for r c
    using all_rate_limited_from[where up = up and p = p and attempt = 0 and retries = r
        and w = w and b = c] H
    by (simp add: chatWithRetry_def)
  have three: "map (\<lambda>n. 800 * 2 ^ n) [0..<3] = [800, 1600, 3200::nat]"
    by (simp add: upt_rec)
  have bound: "calls (snd (chatWithRetry other q retries b w)) \<le> calls w + (retries + 1)"
    using calls_bound_from[of other q retries b 0 w] by (simp add: chatWithRetry_def)
  have "calls w + 3 + 1 = calls w + 4" by simp
  with gen[of 3 800] three
  have dflt: "\<exists>e. up p (calls w + 3) = Rejected e
            \<and> chatWithRetry up p 3 800 w
                = (Thrown e, w\<lparr>calls := calls w + 4, delays := delays w @ [800, 1600, 3200]\<rparr>)"
    by metis
  from dflt gen[of retries b] bound show ?thesis by blast
qed

theorem rate_limited_retries_witness:
  "chatWithRetry alwaysLimited (requestPayload []) 3 800 idle
     = (Thrown tooManyRequests, \<lparr>calls = 4, delays = [800, 1600, 3200]\<rparr>)"
  using rate_limited_retries[of alwaysLimited "requestPayload []" idle 3 800
      alwaysLimited "requestPayload []"] not_billing
  by (simp add: alwaysLimited_def idle_def tooManyRequests_def)



section \<open>The response assembler\<close>

lemma sendMessage_miss:
  assumes "trim (input s) \<noteq> []" and "\<not> isLoading s"
    and "getCachedResult (jironautCache s) (cleanedInput (classify (input s)))
           \<in> {None, Some (Text [])}"
  shows "sendMessage pf s =
           complete pf (s\<lparr>messages := newMessages (messages s) (classify (input s)), input := []\<rparr>)
             (classify (input s)) (newMessages (messages s) (classify (input s)))"
  using assms by (auto simp add: sendMessage_def Let_def)

lemma sendMessage_hit:
  assumes "trim (input s) \<noteq> []" and "\<not> isLoading s"
    and "getCachedResult (jironautCache s) (cleanedInput (classify (input s))) = Some cached"
    and "cached \<noteq> Text []"
  shows "sendMessage pf s =
           s\<lparr>messages := newMessages (messages s) (classify (input s))
                           @ [\<lparr>role = Assistant, content = cached\<rparr>],
             input := []\<rparr>"
proof -
  from assms(4) have "truthyContent cached" by (cases cached) simp_all
  with assms(1-3) show ?thesis by (simp add: sendMessage_def Let_def)
qed



lemma assemble_Scored:
  assumes "assemble pf t = Scored f"
  shows "\<exists>ps sv r. json_parse pf t = Some (JObj ps) \<and> getProp ps (js ''scores'') = Some sv
           \<and> truthy sv \<and> calculateBadgeAndTotal pf sv = Some r
           \<and> f = json_stringify pf (withScore ps r)"
proof (cases "json_parse pf t")
  case None
  with assms show ?thesis by (simp add: assemble_def)
next
  case (Some parsed)
  show ?thesis
  proof (cases parsed)
    case (JObj ps)
    show ?thesis
    proof (cases "getProp ps (js ''scores'')")
      case None
      with assms Some JObj show ?thesis by (simp add: assemble_def)
    next
      case sv: (Some sv)
      show ?thesis
      proof (cases "calculateBadgeAndTotal pf sv")
        case None
        with assms Some JObj sv show ?thesis
          by (cases "truthy sv") (simp_all add: assemble_def)
      next
        case r: (Some r)
        with assms Some JObj sv show ?thesis
          by (cases "truthy sv") (simp_all add: assemble_def)
      qed
    qed
  qed (use assms Some in \<open>simp_all add: assemble_def\<close>)
qed

lemma complete_cache_write:
  assumes "jironautCache (complete pf s p ms) \<noteq> jironautCache s"
  shows "\<exists>answer ps sv r w'.
           chatWithRetry (create pf) (requestPayload ms) 3 800 (net s) = (Returned answer, w')
           \<and> json_parse pf answer = Some (JObj ps) \<and> getProp ps (js ''scores'') = Some sv
           \<and> truthy sv \<and> calculateBadgeAndTotal pf sv = Some r
           \<and> jironautCache (complete pf s p ms)
               = setCachedResult (jironautCache s) (cleanedInput p)
                   (json_stringify pf (withScore ps r))"
proof -
  obtain res w' where run: "chatWithRetry (create pf) (requestPayload ms) 3 800 (net s) = (res, w')"
    by (cases "chatWithRetry (create pf) (requestPayload ms) 3 800 (net s)")
  show ?thesis
  proof (cases res)
    case (Returned answer)
    show ?thesis
    proof (cases "assemble pf answer")
      case (Scored f)
      from assemble_Scored[OF Scored] obtain ps sv r
        where "json_parse pf answer = Some (JObj ps)" "getProp ps (js ''scores'') = Some sv"
          "truthy sv" "calculateBadgeAndTotal pf sv = Some r"
          "f = json_stringify pf (withScore ps r)" by blast
      moreover have "jironautCache (complete pf s p ms)
          = setCachedResult (jironautCache s) (cleanedInput p) f"
        using run Returned Scored by (simp add: complete_def)
      ultimately show ?thesis
        using run Returned by blast
    next
      case (Raw t)
      with assms run Returned show ?thesis by (simp add: complete_def)
    qed
  next
    case ReturnedUndefined
    with assms run show ?thesis by (simp add: complete_def)
  next
    case (Thrown err)
    with assms run show ?thesis by (simp add: complete_def)
  qed
qed

lemma sendMessage_cache_write:
  assumes "jironautCache (sendMessage pf s) \<noteq> jironautCache s"
  shows "\<exists>answer ps sv r w'.
           chatWithRetry (create pf)
             (requestPayload (newMessages (messages s) (classify (input s)))) 3 800 (net s)
             = (Returned answer, w')
           \<and> json_parse pf answer = Some (JObj ps) \<and> getProp ps (js ''scores'') = Some sv
           \<and> truthy sv \<and> calculateBadgeAndTotal pf sv = Some r
           \<and> jironautCache (sendMessage pf s)
               = setCachedResult (jironautCache s) (cleanedInput (classify (input s)))
                   (json_stringify pf (withScore ps r))"
proof -
  let ?p = "classify (input s)"
  let ?ms = "newMessages (messages s) ?p"
  let ?s1 = "s\<lparr>messages := ?ms, input := []\<rparr>"
  from assms have ready: "trim (input s) \<noteq> []" "\<not> isLoading s"
    by (auto simp add: sendMessage_def)
  show ?thesis
  proof (cases "getCachedResult (jironautCache s) (cleanedInput ?p) \<in> {None, Some (Text [])}")
    case True
    have e: "sendMessage pf s = complete pf ?s1 ?p ?ms"
      by (rule sendMessage_miss[OF ready True])
    from assms have "jironautCache (complete pf ?s1 ?p ?ms) \<noteq> jironautCache ?s1"
      unfolding e by simp
    from complete_cache_write[OF this] show ?thesis
      unfolding e by simp
  next
    case False
    then obtain c where "getCachedResult (jironautCache s) (cleanedInput ?p) = Some c"
      and "c \<noteq> Text []"
      by (cases "getCachedResult (jironautCache s) (cleanedInput ?p)") auto
    from sendMessage_hit[OF ready this, of pf] assms show ?thesis by simp
  qed
qed

lemma startsWith_iff: "startsWith s p = (\<exists>post. s = p @ post)"
proof
  assume "startsWith s p"
  then have "s = p @ drop (length p) s"
    unfolding startsWith_def by (metis append_take_drop_id)
  then show "\<exists>post. s = p @ post" ..
next
  assume "\<exists>post. s = p @ post"
  then show "startsWith s p" by (auto simp add: startsWith_def)
qed

lemma str_includes_iff: "str_includes s sub = (\<exists>pre post. s = pre @ sub @ post)"
proof (induction s)
  case Nil
  then show ?case by simp
next
  case (Cons c s)
  show ?case
  proof
    assume "str_includes (c # s) sub"
    then consider "startsWith (c # s) sub" | "str_includes s sub" by auto
    then show "\<exists>pre post. c # s = pre @ sub @ post"
    proof cases
      case 1
      then obtain post where "c # s = [] @ sub @ post"
        unfolding startsWith_iff by auto
      then show ?thesis by blast
    next
      case 2
      with Cons obtain pre post where "s = pre @ sub @ post" by auto
      then have "c # s = (c # pre) @ sub @ post" by simp
      then show ?thesis by blast
    qed
  next
    assume "\<exists>pre post. c # s = pre @ sub @ post"
    then obtain pre post where e: "c # s = pre @ sub @ post" by auto
    show "str_includes (c # s) sub"
    proof (cases pre)
      case Nil
      with e have "startsWith (c # s) sub"
        unfolding startsWith_iff by auto
      then show ?thesis by simp
    next
      case (Cons a pre')
      with e have "s = pre' @ sub @ post" by simp
      with Cons.IH show ?thesis by auto
    qed
  qed
qed

lemma billing_in_phrase:
  assumes "str_includes t billingPhrase"
  shows "str_includes t (js ''billing'')"
proof -
  have "billingPhrase = js ''check your plan and '' @ js ''billing''"
    by (simp add: billingPhrase_def js_def)
  with assms obtain pre post where "t = pre @ (js ''check your plan and '' @ js ''billing'') @ post"
    unfolding str_includes_iff by auto
  then have "t = (pre @ js ''check your plan and '') @ js ''billing'' @ post" by simp
  then show ?thesis unfolding str_includes_iff by blast
qed

lemma never_undefined_from:
  "attempt \<le> retries \<Longrightarrow> fst (chatWithRetry_from up p retries b attempt w) \<noteq> ReturnedUndefined"
proof (induction up p retries b attempt w rule: chatWithRetry_from.induct)
  case (1 up p retries b attempt w)
  show ?case
  proof (cases "up p (calls w)")
    case (Resolved r)
    with "1.prems" show ?thesis
      by (simp add: chatWithRetry_from.simps[of up p retries b attempt w])
  next
    case (Rejected err)
    with "1.prems" "1.IH"[of err] show ?thesis
      by (simp add: chatWithRetry_from.simps[of up p retries b attempt w])
  qed
qed

lemma texts_differ: "quotaMessage \<noteq> rateLimitMessage"
  by (simp add: quotaMessage_def rateLimitMessage_def js_def)

text \<open>
  Claim C5, as the code has it. \<open>sendMessage\<close> reads the cache for the cleaned input in
  every mode, also when the input has neither prefix: the code has no test of the mode
  before \<open>getCachedResult\<close>. Whenever the lookup gives anything but nothing or the empty
  text, what it gives is appended unchanged as the content of the assistant message and no
  upstream call is made; the network log, the cache and the loading flag stay as they
  were. When the cache object holds a text of its own for the cleaned input, that text is
  what the lookup gives.
\<close>

theorem cache_hit_any_mode:
  assumes "trim (input s) \<noteq> []" and "\<not> isLoading s"
    and "getCachedResult (jironautCache s) (cleanedInput (classify (input s))) = Some cached"
    and "cached \<noteq> Text []"
  shows "sendMessage pf s =
           s\<lparr>messages := newMessages (messages s) (classify (input s))
                           @ [\<lparr>role = Assistant, content = cached\<rparr>],
             input := []\<rparr>
         \<and> calls (net (sendMessage pf s)) = calls (net s)
         \<and> (getProp (jironautCache s) (cleanedInput (classify (input s))) = Some stored
            \<longrightarrow> cached = Text stored)"
proof -
  have e: "sendMessage pf s =
           s\<lparr>messages := newMessages (messages s) (classify (input s))
                           @ [\<lparr>role = Assistant, content = cached\<rparr>],
             input := []\<rparr>"
    by (rule sendMessage_hit[OF assms])
  have "calls (net (sendMessage pf s)) = calls (net s)"
    unfolding e by simp
  moreover have "cached = Text stored"
    if "getProp (jironautCache s) (cleanedInput (classify (input s))) = Some stored"
    using that assms(3) by (simp add: getCachedResult_def)
  ultimately show ?thesis
    using e by blast
qed


text \<open>
  Claim C7. When the text of the response does not parse, or parses to a value without a
  \<open>scores\<close> property, the assistant message is the raw text of the response, unchanged,
  and the cache is not written; no error message takes its place. The cache changes only
  on the scored path: if a run of \<open>sendMessage\<close> changes the cache, the upstream call has
  returned, the response has parsed to an object with truthy \<open>scores\<close> on which the scorer
  has returned, and the entry written is the final text under the cleaned input.
\<close>

theorem unscored_response:
  assumes "trim (input s) \<noteq> []" and "\<not> isLoading s"
  shows "(getCachedResult (jironautCache s) (cleanedInput (classify (input s)))
            \<in> {None, Some (Text [])}
          \<and> chatWithRetry (create pf)
               (requestPayload (newMessages (messages s) (classify (input s)))) 3 800 (net s)
               = (Returned aiMessage, w)
          \<and> (json_parse pf aiMessage = None
               \<or> (\<exists>j. json_parse pf aiMessage = Some j \<and> field j (js ''scores'') = None))
          \<longrightarrow> sendMessage pf s =
                s\<lparr>messages := newMessages (messages s) (classify (input s))
                                @ [\<lparr>role = Assistant, content = Text aiMessage\<rparr>],
                  input := [], isLoading := False, net := w\<rparr>
              \<and> jironautCache (sendMessage pf s) = jironautCache s)
       \<and> (jironautCache (sendMessage pf s) \<noteq> jironautCache s
          \<longrightarrow> (\<exists>answer ps sv r w'.
                 chatWithRetry (create pf)
                   (requestPayload (newMessages (messages s) (classify (input s)))) 3 800 (net s)
                   = (Returned answer, w')
                 \<and> json_parse pf answer = Some (JObj ps)
                 \<and> getProp ps (js ''scores'') = Some sv
                 \<and> truthy sv \<and> calculateBadgeAndTotal pf sv = Some r
                 \<and> jironautCache (sendMessage pf s) =
                     setCachedResult (jironautCache s) (cleanedInput (classify (input s)))
                       (json_stringify pf (withScore ps r))))"
proof (intro conjI impI)
  assume h: "getCachedResult (jironautCache s) (cleanedInput (classify (input s)))
            \<in> {None, Some (Text [])}
          \<and> chatWithRetry (create pf)
               (requestPayload (newMessages (messages s) (classify (input s)))) 3 800 (net s)
               = (Returned aiMessage, w)
          \<and> (json_parse pf aiMessage = None
               \<or> (\<exists>j. json_parse pf aiMessage = Some j \<and> field j (js ''scores'') = None))"
  from h have miss:
    "getCachedResult (jironautCache s) (cleanedInput (classify (input s))) \<in> {None, Some (Text [])}"
    by (rule conjunct1)
  from h have run: "chatWithRetry (create pf)
               (requestPayload (newMessages (messages s) (classify (input s)))) 3 800 (net s)
               = (Returned aiMessage, w)"
    by (elim conjE)
  from h have "json_parse pf aiMessage = None
               \<or> (\<exists>j. json_parse pf aiMessage = Some j \<and> field j (js ''scores'') = None)"
    by (elim conjE)
  then have a: "assemble pf aiMessage = Raw aiMessage"
  proof (elim disjE exE conjE)
    assume "json_parse pf aiMessage = None"
    then show ?thesis by (simp add: assemble_def)
  next
    fix j
    assume "json_parse pf aiMessage = Some j" and "field j (js ''scores'') = None"
    then show ?thesis by (cases j) (simp_all add: assemble_def field_def)
  qed
  have e: "sendMessage pf s =
          s\<lparr>messages := newMessages (messages s) (classify (input s))
                          @ [\<lparr>role = Assistant, content = Text aiMessage\<rparr>],
            input := [], isLoading := False, net := w\<rparr>"
    unfolding sendMessage_miss[OF assms miss] using run a by (simp add: complete_def)
  then show "sendMessage pf s =
          s\<lparr>messages := newMessages (messages s) (classify (input s))
                          @ [\<lparr>role = Assistant, content = Text aiMessage\<rparr>],
            input := [], isLoading := False, net := w\<rparr>" .
  show "jironautCache (sendMessage pf s) = jironautCache s"
    unfolding e by simp
next
  assume "jironautCache (sendMessage pf s) \<noteq> jironautCache s"
  then show "\<exists>answer ps sv r w'.
                 chatWithRetry (create pf)
                   (requestPayload (newMessages (messages s) (classify (input s)))) 3 800 (net s)
                   = (Returned answer, w')
                 \<and> json_parse pf answer = Some (JObj ps)
                 \<and> getProp ps (js ''scores'') = Some sv
                 \<and> truthy sv \<and> calculateBadgeAndTotal pf sv = Some r
                 \<and> jironautCache (sendMessage pf s) =
                     setCachedResult (jironautCache s) (cleanedInput (classify (input s)))
                       (json_stringify pf (withScore ps r))"
    by (rule sendMessage_cache_write)
qed

text \<open>
  Claim C9, as the code has it. Whatever error \<open>chatWithRetry\<close> throws, \<open>sendMessage\<close>
  ends with one more assistant message, one of two fixed texts that differ: the quota text
  when the message of the error holds \<open>billing\<close>, the rate-limit text otherwise. The test
  is for the word \<open>billing\<close>, not for the phrase \<open>check your plan and billing\<close> that
  \<open>chatWithRetry\<close> looks for: an error with the phrase gets the quota text, and so does
  every other error whose message holds the word. The loading flag is reset and the state
  is returned, so no error leaves \<open>sendMessage\<close>. The quota error thrown by
  \<open>chatWithRetry\<close> itself holds \<open>billing\<close> and so gets the quota text. \<open>chatWithRetry\<close>
  never returns \<open>undefined\<close>: it returns a response or throws.
\<close>

theorem failures_become_messages:
  assumes "trim (input s) \<noteq> []" and "\<not> isLoading s"
    and "getCachedResult (jironautCache s) (cleanedInput (classify (input s)))
           \<in> {None, Some (Text [])}"
    and "chatWithRetry (create pf)
           (requestPayload (newMessages (messages s) (classify (input s)))) 3 800 (net s)
           = (Thrown err, w)"
  shows "sendMessage pf s =
           s\<lparr>messages := newMessages (messages s) (classify (input s))
               @ [\<lparr>role = Assistant,
                   content = Text
                     (if str_includes (case message err of None \<Rightarrow> [] | Some m \<Rightarrow> m)
                           (js ''billing'')
                      then [9888, 65039]
                           @ js '' OpenAI says your quota is exceeded. Add a payment method or top up credits.''
                      else [9888, 65039] @ js '' We'' @ [8217]
                           @ js ''re sending requests too quickly. Please wait a moment and try again.'')\<rparr>],
             input := [], isLoading := False, net := w\<rparr>
         \<and> (str_includes (case message err of None \<Rightarrow> [] | Some m \<Rightarrow> m)
               (js ''check your plan and billing'')
            \<longrightarrow> content (last (messages (sendMessage pf s)))
                  = Text ([9888, 65039]
                          @ js '' OpenAI says your quota is exceeded. Add a payment method or top up credits.''))
         \<and> humanMessage billingError
             = [9888, 65039]
               @ js '' OpenAI says your quota is exceeded. Add a payment method or top up credits.''
         \<and> [9888, 65039]
             @ js '' OpenAI says your quota is exceeded. Add a payment method or top up credits.''
           \<noteq> [9888, 65039] @ js '' We'' @ [8217]
             @ js ''re sending requests too quickly. Please wait a moment and try again.''
         \<and> fst (chatWithRetry up q retries b w0) \<noteq> ReturnedUndefined"
proof -
  let ?quota = "[9888, 65039]
     @ js '' OpenAI says your quota is exceeded. Add a payment method or top up credits.''"
  let ?rate = "[9888, 65039] @ js '' We'' @ [8217]
     @ js ''re sending requests too quickly. Please wait a moment and try again.''"
  have q: "quotaMessage = ?quota" and r: "rateLimitMessage = ?rate"
    by (simp_all add: quotaMessage_def rateLimitMessage_def)
  have t: "errorText err = (case message err of None \<Rightarrow> [] | Some m \<Rightarrow> m)"
    by (simp add: errorText_def)
  have e: "sendMessage pf s =
           s\<lparr>messages := newMessages (messages s) (classify (input s))
               @ [\<lparr>role = Assistant,
                   content = Text
                     (if str_includes (case message err of None \<Rightarrow> [] | Some m \<Rightarrow> m)
                           (js ''billing'')
                      then ?quota else ?rate)\<rparr>],
             input := [], isLoading := False, net := w\<rparr>"
    unfolding sendMessage_miss[OF assms(1-3)] q[symmetric] r[symmetric] t[symmetric]
    using assms(4) by (simp add: complete_def humanMessage_def)
  have p: "content (last (messages (sendMessage pf s))) = Text ?quota"
    if "str_includes (case message err of None \<Rightarrow> [] | Some m \<Rightarrow> m)
               (js ''check your plan and billing'')"
  proof -
    from that have "str_includes (errorText err) billingPhrase"
      by (simp add: t billingPhrase_def)
    from billing_in_phrase[OF this] show ?thesis
      unfolding e t by simp
  qed
  have b: "humanMessage billingError = ?quota"
    by (simp add: humanMessage_def billingError_def billingErrorMessage_def errorText_def
        quotaMessage_def js_def startsWith_def)
  have d: "?quota \<noteq> ?rate"
    using texts_differ unfolding q r .
  have u: "fst (chatWithRetry up q retries b w0) \<noteq> ReturnedUndefined"
    using never_undefined_from[of 0 retries up q b w0] by (simp add: chatWithRetry_def)
  from e p b d u show ?thesis by blast
qed

section \<open>Runs on the sample data\<close>

lemmas string_ops = trim_def trimStart_def trimEnd_def isWhiteSpace_def toLowerCase_def
  startsWith_def lowerUnit_def slice_def js_def

lemma classify_hello:
  "classify (js ''hello'') =
     \<lparr>mode = Unsupported, systemContent = systemPrompt, modePrompt = unsupportedPrompt,
      cleanedInput = js ''hello''\<rparr>"
  by (simp add: classify_def string_ops)

lemma classify_score_login:
  "classify (js ''score: Add login'') =
     \<lparr>mode = Score, systemContent = systemPrompt @ scoreSystemPrompt, modePrompt = scorePrompt,
      cleanedInput = js ''Add login''\<rparr>"
  by (simp add: classify_def string_ops)

lemma trim_hello: "trim (js ''hello'') \<noteq> []"
  by (simp add: string_ops)

lemma trim_score_login: "trim (js ''score: Add login'') \<noteq> []"
  by (simp add: string_ops)

lemma resolved_at_once:
  "up p (calls w) = Resolved r \<Longrightarrow>
     chatWithRetry up p retries b w = (Returned r, w\<lparr>calls := calls w + 1\<rparr>)"
  by (simp add: chatWithRetry_def chatWithRetry_from.simps[of up p retries b 0 w])

lemma alwaysLimited_run:
  "chatWithRetry alwaysLimited p 3 800 idle
     = (Thrown tooManyRequests, \<lparr>calls = 4, delays = [800, 1600, 3200]\<rparr>)"
proof -
  have "\<And>n. \<exists>e. alwaysLimited p n = Rejected e \<and> status e = Some 429
           \<and> \<not> str_includes (errorText e) billingPhrase"
    using not_billing by (simp add: alwaysLimited_def tooManyRequests_def)
  from all_rate_limited_from[where up = alwaysLimited and p = p and attempt = 0 and retries = 3
      and w = idle and b = 800, OF this]
  show ?thesis
    by (simp add: chatWithRetry_def alwaysLimited_def idle_def upt_rec)
qed

lemma alwaysQuota_run:
  "chatWithRetry alwaysQuota p 3 800 idle = (Thrown billingError, \<lparr>calls = 1, delays = []\<rparr>)"
  using quota_rejection_stops[of alwaysQuota p idle quotaExceeded 3 800] is_billing
  by (simp add: alwaysQuota_def idle_def)

lemma js_nonempty: "js (c # cs) \<noteq> []"
  by (simp add: js_def)


lemma other_rejection_stops:
  assumes "up p (calls w) = Rejected e" and "\<not> str_includes (errorText e) billingPhrase"
    and "status e \<noteq> Some 429"
  shows "chatWithRetry up p retries b w = (Thrown e, w\<lparr>calls := calls w + 1\<rparr>)"
  using assms by (simp add: chatWithRetry_def chatWithRetry_from.simps[of up p retries b 0 w])

lemma invalidAddress_no_phrase: "\<not> str_includes (errorText invalidAddress) billingPhrase"
  by (simp add: invalidAddress_def errorText_def billingPhrase_def js_def startsWith_def)

lemma alwaysInvalid_run:
  "chatWithRetry alwaysInvalid p 3 800 idle = (Thrown invalidAddress, \<lparr>calls = 1, delays = []\<rparr>)"
proof -
  have "status invalidAddress \<noteq> Some 429" by (simp add: invalidAddress_def)
  from other_rejection_stops[of alwaysInvalid p idle invalidAddress 3 800, OF _ invalidAddress_no_phrase this]
  show ?thesis by (simp add: alwaysInvalid_def idle_def)
qed

lemma scoreState_ready:
  "trim (input scoreState) \<noteq> []" "\<not> isLoading scoreState"
  "classify (input scoreState) =
     \<lparr>mode = Score, systemContent = systemPrompt @ scoreSystemPrompt, modePrompt = scorePrompt,
      cleanedInput = js ''Add login''\<rparr>"
  "getCachedResult (jironautCache scoreState) (cleanedInput (classify (input scoreState)))
     \<in> {None, Some (Text [])}"
  "net scoreState = idle"
  "messages scoreState = []"
proof -
  show "trim (input scoreState) \<noteq> []" "\<not> isLoading scoreState"
    "classify (input scoreState) =
       \<lparr>mode = Score, systemContent = systemPrompt @ scoreSystemPrompt, modePrompt = scorePrompt,
        cleanedInput = js ''Add login''\<rparr>"
    "net scoreState = idle" "messages scoreState = []"
    using trim_score_login by (simp_all add: scoreState_def classify_score_login)
  have "getCachedResult [] (js ''Add login'') = None"
    by (simp add: getCachedResult_def getProp_def objectPrototype_def js_def)
  then show "getCachedResult (jironautCache scoreState)
      (cleanedInput (classify (input scoreState))) \<in> {None, Some (Text [])}"
    by (simp add: scoreState_def classify_score_login)
qed

lemma helloState_ready:
  "trim (input helloState) \<noteq> []" "\<not> isLoading helloState"
  "classify (input helloState) =
     \<lparr>mode = Unsupported, systemContent = systemPrompt, modePrompt = unsupportedPrompt,
      cleanedInput = js ''hello''\<rparr>"
  "net helloState = idle"
  using trim_hello
  by (simp_all add: helloState_def classify_hello)

lemma plain_run:
  "chatWithRetry (create plainPlatform) q 3 800 idle
     = (Returned (js ''fresh answer''), \<lparr>calls = 1, delays = []\<rparr>)"
  by (simp add: resolved_at_once plainPlatform_def idle_def)

lemma hello_absent: "getCachedResult [] (js ''hello'') = None"
  by (simp add: getCachedResult_def getProp_def objectPrototype_def js_def)

lemma hello_hit:
  "sendMessage plainPlatform helloState =
     helloState\<lparr>messages := newMessages [] (classify (js ''hello''))
                               @ [\<lparr>role = Assistant, content = Text (js ''earlier answer'')\<rparr>],
                input := []\<rparr>"
  using sendMessage_hit[of helloState "Text (js ''earlier answer'')" plainPlatform] trim_hello
  by (simp add: helloState_def classify_hello getCachedResult_def getProp_def js_nonempty)

lemma hello_miss:
  "sendMessage plainPlatform (helloState\<lparr>jironautCache := []\<rparr>) =
     helloState\<lparr>jironautCache := [],
                messages := newMessages [] (classify (js ''hello''))
                              @ [\<lparr>role = Assistant, content = Text (js ''fresh answer'')\<rparr>],
                input := [], net := \<lparr>calls = 1, delays = []\<rparr>\<rparr>"
proof -
  let ?s = "helloState\<lparr>jironautCache := []\<rparr>"
  have r: "trim (input ?s) \<noteq> []" "\<not> isLoading ?s"
    "getCachedResult (jironautCache ?s) (cleanedInput (classify (input ?s)))
       \<in> {None, Some (Text [])}"
    using helloState_ready(1,2) hello_absent
    by (simp_all add: helloState_def classify_hello)
  have a: "assemble plainPlatform t = Raw t" for t
    by (simp add: assemble_def plainPlatform_def)
  show ?thesis
    unfolding sendMessage_miss[OF r]
    using plain_run a
    by (simp add: complete_def helloState_def classify_hello)
qed

lemma classify_toString:
  "classify (js ''toString'') =
     \<lparr>mode = Unsupported, systemContent = systemPrompt, modePrompt = unsupportedPrompt,
      cleanedInput = js ''toString''\<rparr>"
  by (simp add: classify_def string_ops)

lemma trim_toString: "trim (js ''toString'') \<noteq> []"
  by (simp add: string_ops)

lemma inherited_toString:
  "getCachedResult [] (js ''toString'') = Some (Member (js ''toString''))"
  by (simp add: getCachedResult_def getProp_def objectPrototype_def)

theorem cache_hit_any_mode_witness:
  "sendMessage plainPlatform helloState =
     helloState\<lparr>messages := newMessages [] (classify (js ''hello''))
                               @ [\<lparr>role = Assistant, content = Text (js ''earlier answer'')\<rparr>],
                input := []\<rparr>
   \<and> calls (net (sendMessage plainPlatform helloState)) = 0
   \<and> sendMessage plainPlatform (helloState\<lparr>input := js ''toString'', jironautCache := []\<rparr>) =
     helloState\<lparr>jironautCache := [],
                messages := newMessages [] (classify (js ''toString''))
                              @ [\<lparr>role = Assistant, content = Member (js ''toString'')\<rparr>],
                input := []\<rparr>
   \<and> calls (net (sendMessage plainPlatform
                     (helloState\<lparr>input := js ''toString'', jironautCache := []\<rparr>))) = 0"
proof -
  from cache_hit_any_mode[of helloState "Text (js ''earlier answer'')" plainPlatform
      "js ''earlier answer''"] trim_hello
  have first: "sendMessage plainPlatform helloState =
     helloState\<lparr>messages := newMessages [] (classify (js ''hello''))
                               @ [\<lparr>role = Assistant, content = Text (js ''earlier answer'')\<rparr>],
                input := []\<rparr>
   \<and> calls (net (sendMessage plainPlatform helloState)) = 0"
    by (simp add: helloState_def classify_hello getCachedResult_def getProp_def js_nonempty
        idle_def)
  from cache_hit_any_mode[of "helloState\<lparr>input := js ''toString'', jironautCache := []\<rparr>"
      "Member (js ''toString'')" plainPlatform] trim_toString inherited_toString
  have second: "sendMessage plainPlatform (helloState\<lparr>input := js ''toString'', jironautCache := []\<rparr>) =
     helloState\<lparr>jironautCache := [],
                messages := newMessages [] (classify (js ''toString''))
                              @ [\<lparr>role = Assistant, content = Member (js ''toString'')\<rparr>],
                input := []\<rparr>
   \<and> calls (net (sendMessage plainPlatform
                     (helloState\<lparr>input := js ''toString'', jironautCache := []\<rparr>))) = 0"
    by (simp add: helloState_def classify_toString idle_def)
  from first second show ?thesis by blast
qed

text \<open>
  Claim C5 fails as stated: with the input \<open>hello\<close>, which has no prefix and so is in
  Unsupported mode, a cache entry for \<open>hello\<close> is returned and no upstream call is made,
  while without the entry the upstream service is called once.
\<close>

theorem unsupported_mode_cache_counterexample:
  "mode (classify (input helloState)) = Unsupported
   \<and> content (last (messages (sendMessage plainPlatform helloState)))
       = Text (js ''earlier answer'')
   \<and> calls (net (sendMessage plainPlatform helloState)) = 0
   \<and> content (last (messages (sendMessage plainPlatform (helloState\<lparr>jironautCache := []\<rparr>))))
       = Text (js ''fresh answer'')
   \<and> calls (net (sendMessage plainPlatform (helloState\<lparr>jironautCache := []\<rparr>))) = 1"
  unfolding hello_hit hello_miss
  by (simp add: helloState_def classify_hello idle_def)





lemma riskScores_result:
  "calculateBadgeAndTotal pf (rubric riskScores)
     = Some \<lparr>total = Finite 20, badge = Some risk_wrangler\<rparr>"
  by (subst calculate_rubric) (simp_all add: points_def riskScores_def js_def)

lemma riskScores_scored:
  "withScore [(js ''scores'', rubric riskScores)]
     \<lparr>total = Finite 20, badge = Some risk_wrangler\<rparr>
   = JObj [(js ''scores'', rubric riskScores), (js ''total'', JNum (Finite 20)),
           (js ''badge'', JStr (js ''Risk Wrangler '' @ [9878, 65039]))]"
  by (simp add: withScore_def badgeValue_def risk_wrangler_def js_def)

lemma riskScores_final:
  "json_stringify riskScoresPlatform
     (withScore [(js ''scores'', rubric riskScores)]
        \<lparr>total = Finite 20, badge = Some risk_wrangler\<rparr>) = riskFinalText"
  unfolding riskScores_scored by (simp add: riskScoresPlatform_def)

lemma riskScores_truthy: "truthy (rubric riskScores)"
  by (simp add: rubric_def)

lemma risk_returned:
  "chatWithRetry (create riskScoresPlatform) q 3 800 idle
     = (Returned riskScoresText, \<lparr>calls = 1, delays = []\<rparr>)"
  by (simp add: resolved_at_once riskScoresPlatform_def idle_def)

lemma risk_parsed:
  "json_parse riskScoresPlatform riskScoresText = Some (JObj [(js ''scores'', rubric riskScores)])"
  by (simp add: riskScoresPlatform_def)

lemma riskScores_run:
  "sendMessage riskScoresPlatform scoreState =
     scoreState\<lparr>messages := newMessages [] (classify (input scoreState))
                               @ [\<lparr>role = Assistant, content = Text riskFinalText\<rparr>],
                input := [], isLoading := False,
                jironautCache := [(js ''Add login'', riskFinalText)],
                net := \<lparr>calls = 1, delays = []\<rparr>\<rparr>"
proof -
  have a: "assemble riskScoresPlatform riskScoresText = Scored riskFinalText"
    using risk_parsed riskScores_truthy
    by (simp add: assemble_def getProp_def riskScores_result riskScores_final)
  show ?thesis
    unfolding sendMessage_miss[OF scoreState_ready(1,2,4)]
    using risk_returned a
    by (simp add: complete_def scoreState_ready(3,5,6))
      (simp add: scoreState_def setCachedResult_def js_def)
qed


theorem unscored_response_witness:
  "sendMessage plainPlatform (helloState\<lparr>jironautCache := []\<rparr>) =
     helloState\<lparr>jironautCache := [],
                messages := newMessages [] (classify (input helloState))
                              @ [\<lparr>role = Assistant, content = Text (js ''fresh answer'')\<rparr>],
                input := [], net := \<lparr>calls = 1, delays = []\<rparr>\<rparr>
   \<and> jironautCache (sendMessage plainPlatform (helloState\<lparr>jironautCache := []\<rparr>)) = []
   \<and> jironautCache (sendMessage riskScoresPlatform scoreState)
       = [(js ''Add login'', riskFinalText)]
   \<and> assemble riskScoresPlatform riskScoresText = Scored riskFinalText"
proof -
  let ?s = "helloState\<lparr>jironautCache := []\<rparr>"
  have r: "trim (input ?s) \<noteq> []" "\<not> isLoading ?s"
    "getCachedResult (jironautCache ?s) (cleanedInput (classify (input ?s))) = None"
    "net ?s = idle" "input ?s = input helloState" "messages ?s = []"
    using helloState_ready hello_absent
    by (simp_all add: helloState_def classify_hello)
  have n: "json_parse plainPlatform (js ''fresh answer'') = None"
    by (simp add: plainPlatform_def)
  from unscored_response[OF r(1,2), of plainPlatform "js ''fresh answer''"
      "\<lparr>calls = 1, delays = []\<rparr>"] r(3) n plain_run
  have first: "sendMessage plainPlatform ?s =
     ?s\<lparr>messages := newMessages (messages ?s) (classify (input ?s))
                       @ [\<lparr>role = Assistant, content = Text (js ''fresh answer'')\<rparr>],
         input := [], isLoading := False, net := \<lparr>calls = 1, delays = []\<rparr>\<rparr>"
    by (simp add: r(4))
  have a: "assemble riskScoresPlatform riskScoresText = Scored riskFinalText"
    using risk_parsed riskScores_truthy
    by (simp add: assemble_def getProp_def riskScores_result riskScores_final)
  from first riskScores_run a show ?thesis
    by (simp add: helloState_def)
qed

lemma tooManyRequests_no_billing:
  "\<not> str_includes (errorText tooManyRequests) (js ''billing'')"
  by (simp add: tooManyRequests_def errorText_def js_def startsWith_def)

lemma billingError_has_billing:
  "str_includes (errorText billingError) (js ''billing'')"
  by (simp add: billingError_def billingErrorMessage_def errorText_def js_def startsWith_def)

lemma invalidAddress_has_billing:
  "str_includes (errorText invalidAddress) (js ''billing'')"
  by (simp add: invalidAddress_def errorText_def js_def startsWith_def)

text \<open>
  Claim C9 fails as stated: the text is chosen by the word \<open>billing\<close>, not by the billing
  phrase. An upstream error with the message \<open>Invalid billing address\<close> and status 400
  does not hold the phrase \<open>check your plan and billing\<close>, is thrown on by
  \<open>chatWithRetry\<close> as it is, and gets the quota text, not the rate-limit text.
\<close>

theorem billing_word_counterexample:
  "\<not> str_includes (errorText invalidAddress) billingPhrase
   \<and> chatWithRetry (create invalidPlatform)
       (requestPayload (newMessages (messages scoreState) (classify (input scoreState))))
       3 800 (net scoreState)
       = (Thrown invalidAddress, \<lparr>calls = 1, delays = []\<rparr>)
   \<and> content (last (messages (sendMessage invalidPlatform scoreState))) = Text quotaMessage
   \<and> quotaMessage \<noteq> rateLimitMessage"
proof -
  note n = invalidAddress_no_phrase
  have run: "chatWithRetry (create invalidPlatform) q 3 800 (net scoreState)
             = (Thrown invalidAddress, \<lparr>calls = 1, delays = []\<rparr>)" for q
    by (simp add: invalidPlatform_def alwaysInvalid_run scoreState_ready(5))
  have "sendMessage invalidPlatform scoreState =
          scoreState\<lparr>messages := newMessages [] (classify (input scoreState))
                                    @ [\<lparr>role = Assistant, content = Text quotaMessage\<rparr>],
                     input := [], net := \<lparr>calls = 1, delays = []\<rparr>\<rparr>"
    unfolding sendMessage_miss[OF scoreState_ready(1,2,4)]
    using run invalidAddress_has_billing
    by (simp add: complete_def humanMessage_def scoreState_ready(6)) (simp add: scoreState_def)
  then show ?thesis
    using n run texts_differ by simp
qed

theorem failures_become_messages_witness:
  "sendMessage limitedPlatform scoreState =
     scoreState\<lparr>messages := newMessages [] (classify (input scoreState))
         @ [\<lparr>role = Assistant,
             content = Text ([9888, 65039] @ js '' We'' @ [8217]
               @ js ''re sending requests too quickly. Please wait a moment and try again.'')\<rparr>],
       input := [], isLoading := False,
       net := \<lparr>calls = 4, delays = [800, 1600, 3200]\<rparr>\<rparr>
   \<and> sendMessage quotaPlatform scoreState =
     scoreState\<lparr>messages := newMessages [] (classify (input scoreState))
         @ [\<lparr>role = Assistant,
             content = Text ([9888, 65039]
               @ js '' OpenAI says your quota is exceeded. Add a payment method or top up credits.'')\<rparr>],
       input := [], isLoading := False,
       net := \<lparr>calls = 1, delays = []\<rparr>\<rparr>"
proof -
  have l: "chatWithRetry (create limitedPlatform) q 3 800 (net scoreState)
             = (Thrown tooManyRequests, \<lparr>calls = 4, delays = [800, 1600, 3200]\<rparr>)" for q
    by (simp add: limitedPlatform_def alwaysLimited_run scoreState_ready(5))
  have b: "chatWithRetry (create quotaPlatform) q 3 800 (net scoreState)
             = (Thrown billingError, \<lparr>calls = 1, delays = []\<rparr>)" for q
    by (simp add: quotaPlatform_def alwaysQuota_run scoreState_ready(5))
  have t: "(case message e of None \<Rightarrow> [] | Some m \<Rightarrow> m) = errorText e" for e
    by (simp add: errorText_def)
  from failures_become_messages[OF scoreState_ready(1,2,4) l, of alwaysLimited "requestPayload []" 3 800 idle]
    failures_become_messages[OF scoreState_ready(1,2,4) b, of alwaysQuota "requestPayload []" 3 800 idle]
  show ?thesis
    unfolding t
    by (simp add: tooManyRequests_no_billing billingError_has_billing scoreState_ready(6))
qed

section \<open>The mode classifier\<close>

lemma trimEnd_take: "trimEnd t = take (length t - length (takeWhile isWhiteSpace (rev t))) t"
  by (simp add: trimEnd_def dropWhile_eq_drop rev_drop)

lemma trim_ends:
  assumes "trim s \<noteq> []"
  shows "\<not> isWhiteSpace (hd (trim s)) \<and> \<not> isWhiteSpace (last (trim s))"
proof -
  let ?t = "trimStart s"
  let ?u = "dropWhile isWhiteSpace (rev ?t)"
  from assms have u: "?u \<noteq> []"
    by (simp add: trim_def trimEnd_def)
  then have "\<not> isWhiteSpace (hd ?u)"
    by (rule hd_dropWhile)
  moreover have "last (trim s) = hd ?u"
    using u by (simp add: trim_def trimEnd_def last_rev)
  ultimately have l: "\<not> isWhiteSpace (last (trim s))" by simp
  let ?n = "length ?t - length (takeWhile isWhiteSpace (rev ?t))"
  have tk: "trim s = take ?n ?t"
    by (simp add: trim_def trimEnd_take)
  with assms have n: "0 < ?n" and t: "?t \<noteq> []" by auto
  from t have "\<not> isWhiteSpace (hd ?t)"
    unfolding trimStart_def by (rule hd_dropWhile)
  moreover from n have "hd (trim s) = hd ?t"
    unfolding tk by (rule hd_take)
  ultimately have "\<not> isWhiteSpace (hd (trim s))" by simp
  with l show ?thesis by simp
qed

lemma prefix_split:
  assumes "startsWith (toLowerCase x) (js ''draft:'')"
  shows "x = take 6 x @ slice x 6" and "toLowerCase (take 6 x) = js ''draft:''"
proof -
  have six: "length (js ''draft:'') = 6" by (simp add: js_def)
  show "x = take 6 x @ slice x 6" by (simp add: slice_def)
  from assms show "toLowerCase (take 6 x) = js ''draft:''"
    by (simp add: startsWith_def six toLowerCase_def take_map)
qed

lemma classify_empty:
  "mode (classify []) = Unsupported" "cleanedInput (classify []) = []"
  by (simp_all add: classify_def string_ops)

text \<open>
  Claim C8. An input whose trimmed, lowered form starts with \<open>draft:\<close> is classified as
  Draft; its cleaned input is what follows the first six units of the trimmed input,
  trimmed again, so the six units that spell the prefix are gone and the cleaned input
  neither starts nor ends with white space. An input with neither prefix is Unsupported,
  and its cleaned input is the trimmed input itself. The classification is defined on
  every string; the empty string is Unsupported with an empty cleaned input.
\<close>

theorem classify_modes:
  "(startsWith (toLowerCase (trim inp)) (js ''draft:'') \<longrightarrow>
      mode (classify inp) = Draft
      \<and> cleanedInput (classify inp) = trim (slice (trim inp) 6)
      \<and> trim inp = take 6 (trim inp) @ slice (trim inp) 6
      \<and> toLowerCase (take 6 (trim inp)) = js ''draft:''
      \<and> (cleanedInput (classify inp) \<noteq> [] \<longrightarrow>
           \<not> isWhiteSpace (hd (cleanedInput (classify inp)))
           \<and> \<not> isWhiteSpace (last (cleanedInput (classify inp)))))
   \<and> (\<not> startsWith (toLowerCase (trim inp)) (js ''draft:'')
       \<and> \<not> startsWith (toLowerCase (trim inp)) (js ''score:'') \<longrightarrow>
      mode (classify inp) = Unsupported \<and> cleanedInput (classify inp) = trim inp)
   \<and> mode (classify []) = Unsupported \<and> cleanedInput (classify []) = []"
proof (intro conjI impI)
  assume d: "startsWith (toLowerCase (trim inp)) (js ''draft:'')"
  then show "mode (classify inp) = Draft"
    and c: "cleanedInput (classify inp) = trim (slice (trim inp) 6)"
    by (simp_all add: classify_def Let_def)
  from d show "trim inp = take 6 (trim inp) @ slice (trim inp) 6"
    and "toLowerCase (take 6 (trim inp)) = js ''draft:''"
    by (rule prefix_split)+
  {
    assume "cleanedInput (classify inp) \<noteq> []"
    then show "\<not> isWhiteSpace (hd (cleanedInput (classify inp)))"
      and "\<not> isWhiteSpace (last (cleanedInput (classify inp)))"
      unfolding c using trim_ends[of "slice (trim inp) 6"] by simp_all
  }
next
  assume "\<not> startsWith (toLowerCase (trim inp)) (js ''draft:'')
       \<and> \<not> startsWith (toLowerCase (trim inp)) (js ''score:'')"
  then show "mode (classify inp) = Unsupported" and "cleanedInput (classify inp) = trim inp"
    by (simp_all add: classify_def Let_def)
next
  show "mode (classify []) = Unsupported" and "cleanedInput (classify []) = []"
    by (rule classify_empty)+
qed

theorem classify_modes_witness:
  "mode (classify (js ''  Draft: Fix login  '')) = Draft
   \<and> cleanedInput (classify (js ''  Draft: Fix login  '')) = js ''Fix login''
   \<and> mode (classify (js ''hello'')) = Unsupported
   \<and> cleanedInput (classify (js ''hello'')) = js ''hello''"
  using classify_modes[of "js ''  Draft: Fix login  ''"] classify_modes[of "js ''hello''"]
  by (simp add: string_ops)

end
